theory Spec2Isabelle
  imports Complex_Main
begin

section \<open>Scalars of the tensor library\<close>

text \<open>
  The solvers of \<^verbatim>\<open>losses/bregman_pytorch.py\<close> compute on torch tensors of IEEE
  floating-point numbers. A scalar is modelled as a real number or one of the three
  special values the source tests for with \<^verbatim>\<open>torch.isnan\<close> and \<^verbatim>\<open>torch.isinf\<close>.
  Arithmetic on finite values is exact (rounding, overflow, underflow and the sign of
  zero are not modelled); the special values follow the IEEE rules.
\<close>

datatype fl = Fin real | PInf | NInf | NaN

fun isnan :: "fl \<Rightarrow> bool" where
  "isnan NaN = True"
| "isnan _ = False"

fun isinf :: "fl \<Rightarrow> bool" where
  "isinf PInf = True"
| "isinf NInf = True"
| "isinf _ = False"

fun is_neg :: "fl \<Rightarrow> bool" where
  "is_neg (Fin x) = (x < 0)"
| "is_neg NInf = True"
| "is_neg _ = False"

fun is_zero :: "fl \<Rightarrow> bool" where
  "is_zero (Fin x) = (x = 0)"
| "is_zero _ = False"

fun fneg :: "fl \<Rightarrow> fl" where
  "fneg (Fin x) = Fin (- x)"
| "fneg PInf = NInf"
| "fneg NInf = PInf"
| "fneg NaN = NaN"

fun fadd :: "fl \<Rightarrow> fl \<Rightarrow> fl" where
  "fadd (Fin x) (Fin y) = Fin (x + y)"
| "fadd NaN _ = NaN"
| "fadd _ NaN = NaN"
| "fadd PInf NInf = NaN"
| "fadd NInf PInf = NaN"
| "fadd PInf _ = PInf"
| "fadd _ PInf = PInf"
| "fadd NInf _ = NInf"
| "fadd _ NInf = NInf"

definition fsub :: "fl \<Rightarrow> fl \<Rightarrow> fl" where
  "fsub x y = fadd x (fneg y)"

fun fmul :: "fl \<Rightarrow> fl \<Rightarrow> fl" where
  "fmul (Fin x) (Fin y) = Fin (x * y)"
| "fmul NaN _ = NaN"
| "fmul _ NaN = NaN"
| "fmul x y =
     (if is_zero x \<or> is_zero y then NaN
      else if is_neg x \<noteq> is_neg y then NInf else PInf)"

fun fdiv :: "fl \<Rightarrow> fl \<Rightarrow> fl" where
  "fdiv (Fin x) (Fin y) =
     (if y \<noteq> 0 then Fin (x / y)
      else if x = 0 then NaN else if x < 0 then NInf else PInf)"
| "fdiv NaN _ = NaN"
| "fdiv _ NaN = NaN"
| "fdiv (Fin x) _ = Fin 0"
| "fdiv x (Fin y) = (if is_neg x \<noteq> (y < 0) then NInf else PInf)"
| "fdiv _ _ = NaN"

fun fexp :: "fl \<Rightarrow> fl" where
  "fexp (Fin x) = Fin (exp x)"
| "fexp PInf = PInf"
| "fexp NInf = Fin 0"
| "fexp NaN = NaN"

fun flog :: "fl \<Rightarrow> fl" where
  "flog (Fin x) = (if 0 < x then Fin (ln x) else if x = 0 then NInf else NaN)"
| "flog PInf = PInf"
| "flog NInf = NaN"
| "flog NaN = NaN"

fun fabs :: "fl \<Rightarrow> fl" where
  "fabs (Fin x) = Fin \<bar>x\<bar>"
| "fabs PInf = PInf"
| "fabs NInf = PInf"
| "fabs NaN = NaN"

text \<open>\<^verbatim>\<open>x.pow(2)\<close>\<close>

definition fpow2 :: "fl \<Rightarrow> fl" where
  "fpow2 x = fmul x x"

text \<open>Comparisons: every comparison with NaN is false.\<close>

fun flt :: "fl \<Rightarrow> fl \<Rightarrow> bool" where
  "flt (Fin x) (Fin y) = (x < y)"
| "flt NaN _ = False"
| "flt _ NaN = False"
| "flt NInf NInf = False"
| "flt NInf _ = True"
| "flt _ NInf = False"
| "flt PInf _ = False"
| "flt _ PInf = True"

definition fle :: "fl \<Rightarrow> fl \<Rightarrow> bool" where
  "fle x y = (flt x y \<or> (x = y \<and> \<not> isnan x))"

definition fgt :: "fl \<Rightarrow> fl \<Rightarrow> bool" where
  "fgt x y = flt y x"

definition fge :: "fl \<Rightarrow> fl \<Rightarrow> bool" where
  "fge x y = fle y x"

text \<open>\<^verbatim>\<open>M_EPS = 1e-16\<close>\<close>

definition M_EPS :: fl where
  "M_EPS = Fin (1 / 10 ^ 16)"

section \<open>Tensors\<close>

text \<open>
  A one-dimensional tensor is the list of its entries, a two-dimensional tensor the list
  of its rows. \<^verbatim>\<open>na, nb = C.shape\<close> reads the number of rows and the length of a row; a
  tensor without rows is modelled with zero columns too, which the first assertion of
  each solver rejects either way. Shapes are those of the source: the rows of a matrix
  have one length, and operands of an elementwise operation have equal shapes.
\<close>

type_synonym vec = "fl list"
type_synonym mat = "fl list list"

definition nrows :: "mat \<Rightarrow> nat" where
  "nrows C = length C"

definition ncols :: "mat \<Rightarrow> nat" where
  "ncols C = (case C of [] \<Rightarrow> 0 | r # _ \<Rightarrow> length r)"

definition fsum :: "vec \<Rightarrow> fl" where
  "fsum xs = foldr fadd xs (Fin 0)"

definition msum :: "mat \<Rightarrow> fl" where
  "msum M = fsum (concat M)"

definition vadds :: "vec \<Rightarrow> fl \<Rightarrow> vec" where
  "vadds xs c = map (\<lambda>x. fadd x c) xs"

definition vscale :: "fl \<Rightarrow> vec \<Rightarrow> vec" where
  "vscale c xs = map (fmul c) xs"

definition vlog :: "vec \<Rightarrow> vec" where
  "vlog xs = map flog xs"

definition vadd :: "vec \<Rightarrow> vec \<Rightarrow> vec" where
  "vadd xs ys = map2 fadd xs ys"

definition vsub :: "vec \<Rightarrow> vec \<Rightarrow> vec" where
  "vsub xs ys = map2 fsub xs ys"

definition vmul :: "vec \<Rightarrow> vec \<Rightarrow> vec" where
  "vmul xs ys = map2 fmul xs ys"

definition vdiv :: "vec \<Rightarrow> vec \<Rightarrow> vec" where
  "vdiv xs ys = map2 fdiv xs ys"

definition mmul :: "mat \<Rightarrow> mat \<Rightarrow> mat" where
  "mmul X Y = map2 vmul X Y"

definition col :: "mat \<Rightarrow> nat \<Rightarrow> vec" where
  "col K j = map (\<lambda>row. row ! j) K"

text \<open>\<^verbatim>\<open>torch.matmul(u, K)\<close>: entry \<open>j\<close> is the sum over \<open>i\<close> of \<open>u\<^sub>i * K\<^sub>i\<^sub>j\<close>.\<close>

definition matmul_vm :: "vec \<Rightarrow> mat \<Rightarrow> vec" where
  "matmul_vm u K = map (\<lambda>j. fsum (vmul u (col K j))) [0..<ncols K]"

text \<open>\<^verbatim>\<open>torch.matmul(K, v)\<close>: entry \<open>i\<close> is the sum over \<open>j\<close> of \<open>K\<^sub>i\<^sub>j * v\<^sub>j\<close>.\<close>

definition matmul_mv :: "mat \<Rightarrow> vec \<Rightarrow> vec" where
  "matmul_mv K v = map (\<lambda>row. fsum (vmul row v)) K"

text \<open>\<^verbatim>\<open>torch.sum(P, 0)\<close>: the column sums.\<close>

definition col_sums :: "mat \<Rightarrow> vec" where
  "col_sums P = map (\<lambda>j. fsum (col P j)) [0..<ncols P]"

text \<open>
  \<^verbatim>\<open>x.min()\<close> and \<open>x.max()\<close> of a non-empty tensor: NaN when an entry is NaN, as torch
  propagates it.
\<close>

definition fmin2 :: "fl \<Rightarrow> fl \<Rightarrow> fl" where
  "fmin2 x y = (if isnan x \<or> isnan y then NaN else if flt y x then y else x)"

definition fmax2 :: "fl \<Rightarrow> fl \<Rightarrow> fl" where
  "fmax2 x y = (if isnan x \<or> isnan y then NaN else if flt x y then y else x)"

definition tmin :: "vec \<Rightarrow> fl" where
  "tmin xs = foldr fmin2 xs PInf"

definition tmax :: "vec \<Rightarrow> fl" where
  "tmax xs = foldr fmax2 xs NInf"

text \<open>\<^verbatim>\<open>torch.ones(n) / n\<close>\<close>

definition uniform :: "nat \<Rightarrow> vec" where
  "uniform n = replicate n (fdiv (Fin 1) (Fin (real n)))"

definition mmap :: "(fl \<Rightarrow> fl) \<Rightarrow> mat \<Rightarrow> mat" where
  "mmap f M = map (map f) M"

text \<open>\<^verbatim>\<open>x.reshape(-1, 1) + y.reshape(1, -1)\<close>: the broadcast sum, entry \<open>x\<^sub>i + y\<^sub>j\<close>.\<close>

definition outer_add :: "vec \<Rightarrow> vec \<Rightarrow> mat" where
  "outer_add xs ys = map (\<lambda>x. map (\<lambda>y. fadd x y) ys) xs"

definition madd :: "mat \<Rightarrow> mat \<Rightarrow> mat" where
  "madd X Y = map2 vadd X Y"

text \<open>\<^verbatim>\<open>M + w.reshape(-1, 1)\<close> and \<^verbatim>\<open>M + w.reshape(1, -1)\<close>\<close>

definition add_col :: "mat \<Rightarrow> vec \<Rightarrow> mat" where
  "add_col M w = map2 (\<lambda>row x. map (\<lambda>y. fadd y x) row) M w"

definition add_row :: "mat \<Rightarrow> vec \<Rightarrow> mat" where
  "add_row M w = map (\<lambda>row. vadd row w) M"

text \<open>\<^verbatim>\<open>w.reshape(-1, 1) * M\<close> and \<^verbatim>\<open>M * w.reshape(1, -1)\<close>\<close>

definition mul_col :: "vec \<Rightarrow> mat \<Rightarrow> mat" where
  "mul_col w M = map2 (\<lambda>x row. map (fmul x) row) w M"

definition mul_row :: "mat \<Rightarrow> vec \<Rightarrow> mat" where
  "mul_row M w = map (\<lambda>row. vmul row w) M"

section \<open>Errors and the shared preconditions\<close>

text \<open>
  Every way a solver can raise is a value: the four assertions at the head of each
  solver, the remainder of a division by zero in \<^verbatim>\<open>it % eval_freq\<close> and
  \<^verbatim>\<open>it % print_freq\<close>, subscripting the boolean \<^verbatim>\<open>log\<close>, and reading a local
  variable that was never assigned.
\<close>

datatype assertion = C_needs_2d | Shape_mismatch | Reg_not_positive | Negative_mass

datatype error = AssertionError assertion | ZeroDivisionError | TypeError | UnboundLocalError

text \<open>
  The assertions that open each of the three solvers:
  \<^verbatim>\<open>
    assert na >= 1 and nb >= 1, 'C needs to be 2d'
    assert na == a.shape[0] and nb == b.shape[0], "Shape of a or b does't match that of C"
    assert reg > 0, 'reg should be greater than 0'
    assert a.min() >= 0. and b.min() >= 0., 'Elements in a or b less than 0'
  \<close>
\<close>

definition check_inputs :: "vec \<Rightarrow> vec \<Rightarrow> mat \<Rightarrow> fl \<Rightarrow> error option" where
  "check_inputs a b C reg =
     (let na = nrows C; nb = ncols C in
      if \<not> (na \<ge> 1 \<and> nb \<ge> 1) then Some (AssertionError C_needs_2d)
      else if \<not> (na = length a \<and> nb = length b) then Some (AssertionError Shape_mismatch)
      else if \<not> fgt reg (Fin 0) then Some (AssertionError Reg_not_positive)
      else if \<not> (fge (tmin a) (Fin 0) \<and> fge (tmin b) (Fin 0))
        then Some (AssertionError Negative_mass)
      else None)"

text \<open>\<^verbatim>\<open>it % n == 0\<close> on Python integers.\<close>

definition py_mod_is_zero :: "int \<Rightarrow> int \<Rightarrow> error + bool" where
  "py_mod_is_zero i n = (if n = 0 then Inl ZeroDivisionError else Inr (i mod n = 0))"

text \<open>\<^verbatim>\<open>flag and it % n == 0\<close>: the remainder is taken only when the flag is truthy.\<close>

definition due :: "bool \<Rightarrow> int \<Rightarrow> int \<Rightarrow> error + bool" where
  "due flag i n = (if flag then py_mod_is_zero i n else Inr False)"

datatype 'a step = Continue 'a | Break 'a

section \<open>The plain solver: \<^verbatim>\<open>sinkhorn_knopp\<close>\<close>

record warm_uv =
  ws_u :: vec
  ws_v :: vec

record knopp_state =
  ks_u :: vec
  ks_v :: vec
  ks_it :: int
  ks_err :: fl
  ks_log_err :: "fl list"

record knopp_log =
  kl_err :: "fl list"
  kl_u :: vec
  kl_v :: vec
  kl_alpha :: vec
  kl_beta :: vec

text \<open>\<^verbatim>\<open>torch.div(C, -reg, out=K); torch.exp(K, out=K)\<close>\<close>

definition knopp_kernel :: "mat \<Rightarrow> fl \<Rightarrow> mat" where
  "knopp_kernel C reg = mmap fexp (mmap (\<lambda>c. fdiv c (fneg reg)) C)"

text \<open>\<^verbatim>\<open>b_hat = torch.matmul(u, K) * v; err = (b - b_hat).pow(2).sum().item()\<close>\<close>

definition residual :: "vec \<Rightarrow> vec \<Rightarrow> mat \<Rightarrow> vec \<Rightarrow> fl" where
  "residual b u K v =
     (let b_hat = vmul (matmul_vm u K) v in fsum (map fpow2 (vsub b b_hat)))"

text \<open>\<^verbatim>\<open>P = u.reshape(-1, 1) * K * v.reshape(1, -1)\<close>\<close>

definition plan_of :: "vec \<Rightarrow> mat \<Rightarrow> vec \<Rightarrow> mat" where
  "plan_of u K v = mul_row (mul_col u K) v"

text \<open>
  One pass through the body of the loop, up to but excluding \<^verbatim>\<open>it += 1\<close>, which the
  loop below performs. \<open>Break\<close> is the rollback to \<^verbatim>\<open>upre, vpre\<close> followed by
  \<^verbatim>\<open>break\<close>. Printing has no effect on the result and only its guard is modelled.
\<close>

definition knopp_body ::
  "vec \<Rightarrow> vec \<Rightarrow> mat \<Rightarrow> bool \<Rightarrow> bool \<Rightarrow> int \<Rightarrow> int \<Rightarrow> knopp_state
    \<Rightarrow> error + knopp_state step" where
  "knopp_body a b K verbose log_flag eval_freq print_freq s =
     (let upre = ks_u s; vpre = ks_v s;
          KTu = matmul_vm (ks_u s) K;
          v = vdiv b (vadds KTu M_EPS);
          Kv = matmul_mv K v;
          u = vdiv a (vadds Kv M_EPS)
      in if list_ex isnan u \<or> list_ex isnan v \<or> list_ex isinf u \<or> list_ex isinf v
         then Inr (Break (s\<lparr>ks_u := upre, ks_v := vpre\<rparr>))
         else
           (case due log_flag (ks_it s) eval_freq of
              Inl e \<Rightarrow> Inl e
            | Inr ev \<Rightarrow>
               (let s1 = (if ev
                          then (let err = residual b u K v
                                in s\<lparr>ks_u := u, ks_v := v, ks_err := err,
                                     ks_log_err := ks_log_err s @ [err]\<rparr>)
                          else s\<lparr>ks_u := u, ks_v := v\<rparr>)
                in case due verbose (ks_it s) print_freq of
                     Inl e \<Rightarrow> Inl e
                   | Inr _ \<Rightarrow> Inr (Continue s1))))"

text \<open>\<^verbatim>\<open>while (err > stopThr and it <= maxIter): ...; it += 1\<close>\<close>

function knopp_loop ::
  "vec \<Rightarrow> vec \<Rightarrow> mat \<Rightarrow> int \<Rightarrow> fl \<Rightarrow> bool \<Rightarrow> bool \<Rightarrow> int \<Rightarrow> int \<Rightarrow> knopp_state
    \<Rightarrow> error + knopp_state" where
  "knopp_loop a b K maxIter stopThr verbose log_flag eval_freq print_freq s =
     (if fgt (ks_err s) stopThr \<and> ks_it s \<le> maxIter then
        (case knopp_body a b K verbose log_flag eval_freq print_freq s of
           Inl e \<Rightarrow> Inl e
         | Inr (Break s') \<Rightarrow> Inr s'
         | Inr (Continue s') \<Rightarrow>
             knopp_loop a b K maxIter stopThr verbose log_flag eval_freq print_freq
               (s'\<lparr>ks_it := ks_it s + 1\<rparr>))
      else Inr s)"
  by pat_completeness auto
termination
  by (relation "measure (\<lambda>(a, b, K, maxIter, stopThr, verbose, log_flag, ef, pf, s).
                  nat (maxIter + 1 - ks_it s))") auto

declare knopp_loop.simps [simp del]

definition sinkhorn_knopp ::
  "vec \<Rightarrow> vec \<Rightarrow> mat \<Rightarrow> fl \<Rightarrow> int \<Rightarrow> fl \<Rightarrow> bool \<Rightarrow> bool \<Rightarrow> warm_uv option \<Rightarrow> int \<Rightarrow> int
    \<Rightarrow> error + mat \<times> knopp_log option" where
  "sinkhorn_knopp a b C reg maxIter stopThr verbose log_flag warm_start eval_freq print_freq =
     (case check_inputs a b C reg of
        Some e \<Rightarrow> Inl e
      | None \<Rightarrow>
         (let na = nrows C; nb = ncols C;
              u0 = (case warm_start of Some w \<Rightarrow> ws_u w | None \<Rightarrow> uniform na);
              v0 = (case warm_start of Some w \<Rightarrow> ws_v w | None \<Rightarrow> uniform nb);
              K = knopp_kernel C reg;
              s0 = \<lparr>ks_u = u0, ks_v = v0, ks_it = 1, ks_err = Fin 1, ks_log_err = []\<rparr>
          in case knopp_loop a b K maxIter stopThr verbose log_flag eval_freq print_freq s0 of
               Inl e \<Rightarrow> Inl e
             | Inr s \<Rightarrow>
                Inr (plan_of (ks_u s) K (ks_v s),
                     if log_flag
                     then Some \<lparr>kl_err = ks_log_err s, kl_u = ks_u s, kl_v = ks_v s,
                                kl_alpha = vscale reg (vlog (vadds (ks_u s) M_EPS)),
                                kl_beta = vscale reg (vlog (vadds (ks_v s) M_EPS))\<rparr>
                     else None)))"

section \<open>The stabilized solver: \<^verbatim>\<open>sinkhorn_stabilized\<close>\<close>

record warm_ab =
  ws_alpha :: vec
  ws_beta :: vec

record stab_state =
  ss_u :: vec
  ss_v :: vec
  ss_alpha :: vec
  ss_beta :: vec
  ss_K :: mat
  ss_it :: int
  ss_err :: fl
  ss_log_err :: "fl list"

record stab_log =
  sl_err :: "fl list"
  sl_u :: vec
  sl_v :: vec
  sl_alpha :: vec
  sl_beta :: vec

text \<open>
  The closure \<^verbatim>\<open>update_K(alpha, beta)\<close>, which writes the buffer \<open>K\<close>:
  \<^verbatim>\<open>
    torch.add(alpha.reshape(-1, 1), beta.reshape(1, -1), out=K)
    torch.add(K, -C, out=K)
    torch.div(K, reg, out=K)
    torch.exp(K, out=K)
  \<close>
\<close>

definition update_K :: "mat \<Rightarrow> fl \<Rightarrow> vec \<Rightarrow> vec \<Rightarrow> mat" where
  "update_K C reg alpha beta =
     (let K1 = outer_add alpha beta;
          K2 = madd K1 (mmap fneg C);
          K3 = mmap (\<lambda>x. fdiv x reg) K2
      in mmap fexp K3)"

text \<open>
  The closure \<^verbatim>\<open>update_P(alpha, beta, u, v, ab_updated)\<close>, which writes the buffer \<open>P\<close>:
  \<^verbatim>\<open>
    torch.add(alpha.reshape(-1, 1), beta.reshape(1, -1), out=P)
    torch.add(P, -C, out=P)
    torch.div(P, reg, out=P)
    if not ab_updated:
        torch.add(P, torch.log(u + M_EPS).reshape(-1, 1), out=P)
        torch.add(P, torch.log(v + M_EPS).reshape(1, -1), out=P)
    torch.exp(P, out=P)
  \<close>
\<close>

definition update_P :: "mat \<Rightarrow> fl \<Rightarrow> vec \<Rightarrow> vec \<Rightarrow> vec \<Rightarrow> vec \<Rightarrow> bool \<Rightarrow> mat" where
  "update_P C reg alpha beta u v ab_updated =
     (let P1 = outer_add alpha beta;
          P2 = madd P1 (mmap fneg C);
          P3 = mmap (\<lambda>x. fdiv x reg) P2;
          P4 = (if \<not> ab_updated
                then add_row (add_col P3 (vlog (vadds u M_EPS))) (vlog (vadds v M_EPS))
                else P3)
      in mmap fexp P4)"

text \<open>\<^verbatim>\<open>x.fill_(c)\<close>: every entry of \<open>x\<close> becomes \<open>c\<close>.\<close>

definition fill :: "vec \<Rightarrow> fl \<Rightarrow> vec" where
  "fill xs c = map (\<lambda>_. c) xs"

text \<open>
  One pass through the body of the loop, up to but excluding \<^verbatim>\<open>it += 1\<close>. The body
  stores \<^verbatim>\<open>upre, vpre = u, v\<close> and never reads them again: this solver has no test for
  NaN or infinite entries, no rollback and no \<^verbatim>\<open>break\<close>.
\<close>

definition stab_body ::
  "vec \<Rightarrow> vec \<Rightarrow> mat \<Rightarrow> fl \<Rightarrow> fl \<Rightarrow> bool \<Rightarrow> bool \<Rightarrow> int \<Rightarrow> int \<Rightarrow> stab_state
    \<Rightarrow> error + stab_state" where
  "stab_body a b C reg tau verbose log_flag eval_freq print_freq s =
     (let na = nrows C; nb = ncols C;
          KTu = matmul_vm (ss_u s) (ss_K s);
          v = vdiv b (vadds KTu M_EPS);
          Kv = matmul_mv (ss_K s) v;
          u = vdiv a (vadds Kv M_EPS);
          absorb = (fgt (fsum (map fabs u)) tau \<or> fgt (fsum (map fabs v)) tau);
          alpha = (if absorb then vadd (ss_alpha s) (vscale reg (vlog (vadds u M_EPS)))
                   else ss_alpha s);
          beta = (if absorb then vadd (ss_beta s) (vscale reg (vlog (vadds v M_EPS)))
                  else ss_beta s);
          u' = (if absorb then fill u (fdiv (Fin 1) (Fin (real na))) else u);
          v' = (if absorb then fill v (fdiv (Fin 1) (Fin (real nb))) else v);
          K = (if absorb then update_K C reg alpha beta else ss_K s);
          ab_updated = absorb;
          s0 = s\<lparr>ss_u := u', ss_v := v', ss_alpha := alpha, ss_beta := beta, ss_K := K\<rparr>
      in case due log_flag (ss_it s) eval_freq of
           Inl e \<Rightarrow> Inl e
         | Inr ev \<Rightarrow>
            (let s1 = (if ev
                       then (let P = update_P C reg alpha beta u' v' ab_updated;
                                 b_hat = col_sums P;
                                 err = fsum (map fpow2 (vsub b b_hat))
                             in s0\<lparr>ss_err := err, ss_log_err := ss_log_err s @ [err]\<rparr>)
                       else s0)
             in case due verbose (ss_it s) print_freq of
                  Inl e \<Rightarrow> Inl e
                | Inr _ \<Rightarrow> Inr s1))"

text \<open>\<^verbatim>\<open>while (err > stopThr and it <= maxIter): ...; it += 1\<close>\<close>

function stab_loop ::
  "vec \<Rightarrow> vec \<Rightarrow> mat \<Rightarrow> fl \<Rightarrow> int \<Rightarrow> fl \<Rightarrow> fl \<Rightarrow> bool \<Rightarrow> bool \<Rightarrow> int \<Rightarrow> int \<Rightarrow> stab_state
    \<Rightarrow> error + stab_state" where
  "stab_loop a b C reg maxIter tau stopThr verbose log_flag eval_freq print_freq s =
     (if fgt (ss_err s) stopThr \<and> ss_it s \<le> maxIter then
        (case stab_body a b C reg tau verbose log_flag eval_freq print_freq s of
           Inl e \<Rightarrow> Inl e
         | Inr s' \<Rightarrow>
             stab_loop a b C reg maxIter tau stopThr verbose log_flag eval_freq print_freq
               (s'\<lparr>ss_it := ss_it s + 1\<rparr>))
      else Inr s)"
  by pat_completeness auto
termination
  by (relation "measure (\<lambda>(a, b, C, reg, maxIter, tau, stopThr, verbose, log_flag, ef, pf, s).
                  nat (maxIter + 1 - ss_it s))") auto

declare stab_loop.simps [simp del]

text \<open>The state at the head of the loop, before its first pass.\<close>

definition stab_init :: "mat \<Rightarrow> fl \<Rightarrow> warm_ab option \<Rightarrow> stab_state" where
  "stab_init C reg warm_start =
     (let na = nrows C; nb = ncols C;
          alpha = (case warm_start of Some w \<Rightarrow> ws_alpha w
                   | None \<Rightarrow> replicate na (Fin 0));
          beta = (case warm_start of Some w \<Rightarrow> ws_beta w
                  | None \<Rightarrow> replicate nb (Fin 0));
          u = uniform na;
          v = uniform nb;
          K = update_K C reg alpha beta
      in \<lparr>ss_u = u, ss_v = v, ss_alpha = alpha, ss_beta = beta, ss_K = K,
          ss_it = 1, ss_err = Fin 1, ss_log_err = []\<rparr>)"

definition sinkhorn_stabilized ::
  "vec \<Rightarrow> vec \<Rightarrow> mat \<Rightarrow> fl \<Rightarrow> int \<Rightarrow> fl \<Rightarrow> fl \<Rightarrow> bool \<Rightarrow> bool \<Rightarrow> warm_ab option \<Rightarrow> int \<Rightarrow> int
    \<Rightarrow> error + mat \<times> stab_log option" where
  "sinkhorn_stabilized a b C reg maxIter tau stopThr verbose log_flag warm_start
      eval_freq print_freq =
     (case check_inputs a b C reg of
        Some e \<Rightarrow> Inl e
      | None \<Rightarrow>
         (case stab_loop a b C reg maxIter tau stopThr verbose log_flag eval_freq print_freq
                 (stab_init C reg warm_start) of
            Inl e \<Rightarrow> Inl e
          | Inr s \<Rightarrow>
             Inr (update_P C reg (ss_alpha s) (ss_beta s) (ss_u s) (ss_v s) False,
                  if log_flag
                  then Some \<lparr>sl_err = ss_log_err s, sl_u = ss_u s, sl_v = ss_v s,
                     sl_alpha = vadd (ss_alpha s) (vscale reg (vlog (vadds (ss_u s) M_EPS))),
                     sl_beta = vadd (ss_beta s) (vscale reg (vlog (vadds (ss_v s) M_EPS)))\<rparr>
                  else None)))"

section \<open>The controller: \<^verbatim>\<open>sinkhorn_epsilon_scaling\<close>\<close>

record eps_state =
  es_it :: int
  es_err :: fl
  es_running_reg :: fl
  es_warm_start :: "warm_ab option"
  es_log_err :: "fl list option"
  es_last :: "(mat \<times> stab_log) option"

record eps_log =
  el_err :: "fl list"
  el_alpha :: vec
  el_beta :: vec

text \<open>
  The closure \<^verbatim>\<open>get_reg(it, reg, pre_reg)\<close>; it reads \<^verbatim>\<open>scaling_coef\<close> and
  \<^verbatim>\<open>scaling_base\<close> of the enclosing call.
\<close>

definition get_reg :: "fl \<Rightarrow> fl \<Rightarrow> int \<Rightarrow> fl \<Rightarrow> fl \<Rightarrow> fl" where
  "get_reg scaling_coef scaling_base it reg pre_reg =
     (if it = 1 then scaling_coef
      else if flt (fmul (fsub pre_reg reg) scaling_base) M_EPS then reg
      else fadd (fmul (fsub pre_reg reg) scaling_base) reg)"

text \<open>
  \<^verbatim>\<open>primal_val = (C * P).sum() + reg * (P * torch.log(P)).sum() - reg * P.sum()\<close> and
  \<^verbatim>\<open>dual_val = (_log['alpha'] * a).sum() + (_log['beta'] * b).sum() - reg * P.sum()\<close>
\<close>

definition primal_val :: "mat \<Rightarrow> mat \<Rightarrow> fl \<Rightarrow> fl" where
  "primal_val C P reg =
     fsub (fadd (msum (mmul C P)) (fmul reg (msum (mmul P (mmap flog P)))))
          (fmul reg (msum P))"

definition dual_val :: "vec \<Rightarrow> vec \<Rightarrow> vec \<Rightarrow> vec \<Rightarrow> mat \<Rightarrow> fl \<Rightarrow> fl" where
  "dual_val alpha beta a b P reg =
     fsub (fadd (fsum (vmul alpha a)) (fsum (vmul beta b))) (fmul reg (msum P))"

text \<open>
  One pass through the body of the outer loop, up to but excluding \<^verbatim>\<open>it += 1\<close>. The
  inner solve is called with \<^verbatim>\<open>verbose=False, log=True\<close>, so it returns a pair of
  a plan and a log; the case of a plan without a log never arises and is given an error.
  \<^verbatim>\<open>log['err'].append(err)\<close> is not guarded: when \<^verbatim>\<open>log\<close> is still the boolean
  \<^verbatim>\<open>False\<close>, subscripting it raises \<^verbatim>\<open>TypeError\<close>.
\<close>

definition eps_body ::
  "vec \<Rightarrow> vec \<Rightarrow> mat \<Rightarrow> fl \<Rightarrow> int \<Rightarrow> fl \<Rightarrow> fl \<Rightarrow> fl \<Rightarrow> fl \<Rightarrow> bool \<Rightarrow> int \<Rightarrow> int \<Rightarrow> eps_state
    \<Rightarrow> error + eps_state" where
  "eps_body a b C reg maxInnerIter tau scaling_base scaling_coef stopThr verbose
      eval_freq print_freq s =
     (let running_reg = get_reg scaling_coef scaling_base (es_it s) reg (es_running_reg s)
      in case sinkhorn_stabilized a b C running_reg maxInnerIter tau stopThr False True
                (es_warm_start s) eval_freq print_freq of
           Inl e \<Rightarrow> Inl e
         | Inr (P, None) \<Rightarrow> Inl TypeError
         | Inr (P, Some lg) \<Rightarrow>
            (let warm_start = Some \<lparr>ws_alpha = sl_alpha lg, ws_beta = sl_beta lg\<rparr>;
                 err = fsub (primal_val C P reg)
                            (dual_val (sl_alpha lg) (sl_beta lg) a b P reg)
             in case es_log_err s of
                  None \<Rightarrow> Inl TypeError
                | Some errs \<Rightarrow>
                   (case due verbose (es_it s) print_freq of
                      Inl e \<Rightarrow> Inl e
                    | Inr _ \<Rightarrow>
                       Inr (s\<lparr>es_err := err, es_running_reg := running_reg,
                              es_warm_start := warm_start,
                              es_log_err := Some (errs @ [err]),
                              es_last := Some (P, lg)\<rparr>))))"

text \<open>\<^verbatim>\<open>while (err > stopThr and it <= maxIter): ...; it += 1\<close>\<close>

function eps_loop ::
  "vec \<Rightarrow> vec \<Rightarrow> mat \<Rightarrow> fl \<Rightarrow> int \<Rightarrow> int \<Rightarrow> fl \<Rightarrow> fl \<Rightarrow> fl \<Rightarrow> fl \<Rightarrow> bool \<Rightarrow> int \<Rightarrow> int
    \<Rightarrow> eps_state \<Rightarrow> error + eps_state" where
  "eps_loop a b C reg maxIter maxInnerIter tau scaling_base scaling_coef stopThr verbose
      eval_freq print_freq s =
     (if fgt (es_err s) stopThr \<and> es_it s \<le> maxIter then
        (case eps_body a b C reg maxInnerIter tau scaling_base scaling_coef stopThr verbose
                eval_freq print_freq s of
           Inl e \<Rightarrow> Inl e
         | Inr s' \<Rightarrow>
             eps_loop a b C reg maxIter maxInnerIter tau scaling_base scaling_coef stopThr
               verbose eval_freq print_freq (s'\<lparr>es_it := es_it s + 1\<rparr>))
      else Inr s)"
  by pat_completeness auto
termination
  by (relation "measure (\<lambda>(a, b, C, reg, maxIter, maxInnerIter, tau, scaling_base,
                   scaling_coef, stopThr, verbose, ef, pf, s). nat (maxIter + 1 - es_it s))")
     auto

declare eps_loop.simps [simp del]

text \<open>
  The state at the head of the outer loop. \<^verbatim>\<open>warm_start = None\<close> overwrites the
  argument; \<^verbatim>\<open>log\<close> becomes the dictionary \<^verbatim>\<open>{'err': []}\<close> when it was truthy and
  stays \<^verbatim>\<open>False\<close> otherwise; \<open>P\<close> and \<^verbatim>\<open>_log\<close> are not yet assigned.
\<close>

definition eps_init :: "fl \<Rightarrow> bool \<Rightarrow> warm_ab option \<Rightarrow> eps_state" where
  "eps_init scaling_coef log_flag warm_start =
     (let warm_start' = None
      in \<lparr>es_it = 1, es_err = Fin 1, es_running_reg = scaling_coef,
          es_warm_start = warm_start',
          es_log_err = (if log_flag then Some [] else None),
          es_last = None\<rparr>)"

text \<open>\<^verbatim>\<open>if scaling_coef is None: scaling_coef = C.max() + reg\<close>\<close>

definition default_coef :: "mat \<Rightarrow> fl \<Rightarrow> fl option \<Rightarrow> fl" where
  "default_coef C reg scaling_coef =
     (case scaling_coef of None \<Rightarrow> fadd (tmax (concat C)) reg | Some c \<Rightarrow> c)"

definition sinkhorn_epsilon_scaling ::
  "vec \<Rightarrow> vec \<Rightarrow> mat \<Rightarrow> fl \<Rightarrow> int \<Rightarrow> int \<Rightarrow> fl \<Rightarrow> fl \<Rightarrow> fl option \<Rightarrow> fl \<Rightarrow> bool \<Rightarrow> bool
    \<Rightarrow> warm_ab option \<Rightarrow> int \<Rightarrow> int \<Rightarrow> error + mat \<times> eps_log option" where
  "sinkhorn_epsilon_scaling a b C reg maxIter maxInnerIter tau scaling_base scaling_coef
      stopThr verbose log_flag warm_start eval_freq print_freq =
     (case check_inputs a b C reg of
        Some e \<Rightarrow> Inl e
      | None \<Rightarrow>
         (let scaling_coef' = default_coef C reg scaling_coef
          in case eps_loop a b C reg maxIter maxInnerIter tau scaling_base scaling_coef'
                    stopThr verbose eval_freq print_freq
                    (eps_init scaling_coef' log_flag warm_start) of
               Inl e \<Rightarrow> Inl e
             | Inr s \<Rightarrow>
                (case es_log_err s of
                   Some errs \<Rightarrow>
                     (case es_last s of
                        None \<Rightarrow> Inl UnboundLocalError
                      | Some (P, lg) \<Rightarrow>
                          Inr (P, Some \<lparr>el_err = errs, el_alpha = sl_alpha lg,
                                         el_beta = sl_beta lg\<rparr>))
                 | None \<Rightarrow>
                     (case es_last s of
                        None \<Rightarrow> Inl UnboundLocalError
                      | Some (P, lg) \<Rightarrow> Inr (P, None)))))"

section \<open>Notions of the specification\<close>

text \<open>
  The inputs that violate a precondition of the external interface: \<open>na < 1\<close> or
  \<open>nb < 1\<close>, a marginal whose length is not that of the cost matrix, \<open>reg \<le> 0\<close>, or a
  negative entry in a marginal.
\<close>

definition violates_precondition :: "vec \<Rightarrow> vec \<Rightarrow> mat \<Rightarrow> fl \<Rightarrow> bool" where
  "violates_precondition a b C reg =
     (nrows C < 1 \<or> ncols C < 1 \<or> length a \<noteq> nrows C \<or> length b \<noteq> ncols C
      \<or> fle reg (Fin 0)
      \<or> list_ex (\<lambda>x. flt x (Fin 0)) a \<or> list_ex (\<lambda>x. flt x (Fin 0)) b)"

text \<open>
  The schedule of the regularization for the outer iterations \<open>1, 2, ...\<close>: the first
  value is the scaling coefficient, every later one is
  \<open>reg + (previous - reg) * scaling_base\<close>, unless \<open>(previous - reg) * scaling_base\<close> is
  below the threshold \<^verbatim>\<open>M_EPS = 1e-16\<close>, where it is \<open>reg\<close>. Before the first iteration
  (index \<open>0\<close>) the variable holds the scaling coefficient.
\<close>

fun reg_schedule :: "fl \<Rightarrow> fl \<Rightarrow> fl \<Rightarrow> nat \<Rightarrow> fl" where
  "reg_schedule coef base reg 0 = coef"
| "reg_schedule coef base reg (Suc 0) = coef"
| "reg_schedule coef base reg (Suc (Suc n)) =
     (let delta = fmul (fsub (reg_schedule coef base reg (Suc n)) reg) base
      in if flt delta M_EPS then reg else fadd reg delta)"

text \<open>
  The same schedule with the threshold that the specification names, the machine epsilon:
  \<open>2\<^sup>-\<^sup>5\<^sup>2\<close> for the 64-bit floating-point numbers (that of the 32-bit numbers, \<open>2\<^sup>-\<^sup>2\<^sup>3\<close>, is
  larger still).
\<close>

definition machine_epsilon :: fl where
  "machine_epsilon = Fin (1 / 2 ^ 52)"

fun claimed_schedule :: "fl \<Rightarrow> fl \<Rightarrow> fl \<Rightarrow> nat \<Rightarrow> fl" where
  "claimed_schedule coef base reg 0 = coef"
| "claimed_schedule coef base reg (Suc 0) = coef"
| "claimed_schedule coef base reg (Suc (Suc n)) =
     (let delta = fmul (fsub (claimed_schedule coef base reg (Suc n)) reg) base
      in if flt delta machine_epsilon then reg else fadd reg delta)"

text \<open>
  The state after \<open>n\<close> passes through the body of the outer loop, each followed by
  \<^verbatim>\<open>it += 1\<close>, without the test of the loop: the loop is these passes, repeated while
  its test holds.
\<close>

fun eps_passes ::
  "vec \<Rightarrow> vec \<Rightarrow> mat \<Rightarrow> fl \<Rightarrow> int \<Rightarrow> fl \<Rightarrow> fl \<Rightarrow> fl \<Rightarrow> fl \<Rightarrow> bool \<Rightarrow> int \<Rightarrow> int \<Rightarrow> nat
    \<Rightarrow> eps_state \<Rightarrow> error + eps_state" where
  "eps_passes a b C reg maxInnerIter tau scaling_base scaling_coef stopThr verbose
      eval_freq print_freq 0 s = Inr s"
| "eps_passes a b C reg maxInnerIter tau scaling_base scaling_coef stopThr verbose
      eval_freq print_freq (Suc n) s =
     (case eps_passes a b C reg maxInnerIter tau scaling_base scaling_coef stopThr verbose
             eval_freq print_freq n s of
        Inl e \<Rightarrow> Inl e
      | Inr s' \<Rightarrow>
         (case eps_body a b C reg maxInnerIter tau scaling_base scaling_coef stopThr verbose
                 eval_freq print_freq s' of
            Inl e \<Rightarrow> Inl e
          | Inr s'' \<Rightarrow> Inr (s''\<lparr>es_it := es_it s' + 1\<rparr>)))"



text \<open>
  The shapes of the tensors of the stabilized solver: \<open>C\<close> is an \<open>na \<times> nb\<close> matrix with
  \<open>na, nb \<ge> 1\<close>, and \<open>a\<close>, \<open>alpha\<close> have \<open>na\<close> entries, \<open>b\<close>, \<open>beta\<close> have \<open>nb\<close>, \<open>K\<close> has the
  shape of \<open>C\<close>.
\<close>

definition stab_shapes :: "vec \<Rightarrow> vec \<Rightarrow> mat \<Rightarrow> stab_state \<Rightarrow> bool" where
  "stab_shapes a b C s =
     (1 \<le> nrows C \<and> 1 \<le> ncols C \<and> length a = nrows C \<and> length b = ncols C
      \<and> (\<forall>r\<in>set C. length r = ncols C)
      \<and> length (ss_alpha s) = nrows C \<and> length (ss_beta s) = ncols C
      \<and> length (ss_K s) = nrows C \<and> (\<forall>r\<in>set (ss_K s). length r = ncols C))"




section \<open>Basic facts\<close>

lemmas tensor_defs = nrows_def ncols_def fsum_def msum_def vadds_def vscale_def vlog_def
  vadd_def vsub_def vmul_def vdiv_def mmul_def col_def matmul_vm_def matmul_mv_def
  col_sums_def fmin2_def fmax2_def tmin_def tmax_def uniform_def mmap_def outer_add_def
  madd_def add_col_def add_row_def mul_col_def mul_row_def fsub_def fpow2_def fle_def
  fgt_def fge_def M_EPS_def fill_def

subsection \<open>The order on scalars\<close>

lemma flt_trans: "flt x y \<Longrightarrow> flt y z \<Longrightarrow> flt x z"
  by (cases x; cases y; cases z) auto

lemma flt_irrefl: "\<not> flt x x"
  by (cases x) auto

lemma flt_not_nan: "flt x y \<Longrightarrow> \<not> isnan x \<and> \<not> isnan y"
  by (cases x; cases y) auto

lemma flt_le_trans: "flt x y \<Longrightarrow> \<not> flt t y \<Longrightarrow> \<not> isnan t \<Longrightarrow> flt x t"
  by (cases x; cases y; cases t) auto

lemma fle_not_fgt: "fle x y \<Longrightarrow> \<not> fgt x y"
  by (cases x; cases y) (auto simp: fle_def fgt_def)

lemma tmin_lower: "x \<in> set xs \<Longrightarrow> isnan (tmin xs) \<or> \<not> flt x (tmin xs)"
proof (induction xs)
  case Nil
  then show ?case by simp
next
  case (Cons y ys)
  have unf: "tmin (y # ys) = fmin2 y (tmin ys)" by (simp add: tmin_def)
  show ?case
  proof (cases "x = y")
    case True
    then show ?thesis unfolding unf fmin2_def
      by (auto simp: flt_irrefl dest: flt_trans)
  next
    case False
    with Cons have "isnan (tmin ys) \<or> \<not> flt x (tmin ys)" by simp
    then show ?thesis unfolding unf fmin2_def
      by (auto dest: flt_trans flt_le_trans)
  qed
qed

lemma neg_entry_fails: "list_ex (\<lambda>x. flt x (Fin 0)) xs \<Longrightarrow> \<not> fge (tmin xs) (Fin 0)"
proof
  assume ex: "list_ex (\<lambda>x. flt x (Fin 0)) xs" and ge: "fge (tmin xs) (Fin 0)"
  from ex obtain x where x: "x \<in> set xs" "flt x (Fin 0)" by (auto simp: list_ex_iff)
  from ge have le: "flt (Fin 0) (tmin xs) \<or> Fin 0 = tmin xs"
    by (auto simp: fge_def fle_def)
  then have nn: "\<not> isnan (tmin xs)"
    using flt_not_nan[of "Fin 0" "tmin xs"] by (cases "tmin xs") auto
  from tmin_lower[OF x(1)] nn have "\<not> flt x (tmin xs)" by simp
  moreover from le x(2) have "flt x (tmin xs)" by (auto dest: flt_trans)
  ultimately show False by simp
qed

subsection \<open>The preconditions\<close>

lemma check_shapes:
  "check_inputs a b C reg = None \<Longrightarrow>
   1 \<le> nrows C \<and> 1 \<le> ncols C \<and> nrows C = length a \<and> ncols C = length b
   \<and> fgt reg (Fin 0) \<and> fge (tmin a) (Fin 0) \<and> fge (tmin b) (Fin 0)"
  by (simp add: check_inputs_def Let_def split: if_splits)


lemma violation_rejected:
  assumes "violates_precondition a b C reg"
  shows "\<exists>k. check_inputs a b C reg = Some (AssertionError k)"
  using assms neg_entry_fails[of a] neg_entry_fails[of b] fle_not_fgt[of reg "Fin 0"]
  unfolding violates_precondition_def check_inputs_def Let_def
  by auto

subsection \<open>The stabilized solver returns\<close>

lemma due_returns: "(flag \<longrightarrow> n \<noteq> 0) \<Longrightarrow> \<exists>r. due flag i n = Inr r"
  by (auto simp: due_def py_mod_is_zero_def)

lemma stab_body_returns:
  assumes "log_flag \<longrightarrow> eval_freq \<noteq> 0" and "verbose \<longrightarrow> print_freq \<noteq> 0"
  shows "\<exists>s'. stab_body a b C reg tau verbose log_flag eval_freq print_freq s = Inr s'"
proof -
  from due_returns[OF assms(1)] obtain ev
    where ev: "due log_flag (ss_it s) eval_freq = Inr ev" ..
  from due_returns[OF assms(2)] obtain pr
    where pr: "due verbose (ss_it s) print_freq = Inr pr" ..
  show ?thesis by (simp add: stab_body_def Let_def ev pr)
qed

lemma stab_loop_stop:
  "\<not> (fgt (ss_err s) stopThr \<and> ss_it s \<le> maxIter) \<Longrightarrow>
   stab_loop a b C reg maxIter tau stopThr verbose log_flag eval_freq print_freq s = Inr s"
  by (subst stab_loop.simps) auto

lemma stab_loop_pass:
  "fgt (ss_err s) stopThr \<Longrightarrow> ss_it s \<le> maxIter \<Longrightarrow>
   stab_body a b C reg tau verbose log_flag eval_freq print_freq s = Inr s' \<Longrightarrow>
   stab_loop a b C reg maxIter tau stopThr verbose log_flag eval_freq print_freq s
   = stab_loop a b C reg maxIter tau stopThr verbose log_flag eval_freq print_freq
       (s'\<lparr>ss_it := ss_it s + 1\<rparr>)"
  by (subst stab_loop.simps) auto

lemma stab_loop_returns:
  assumes "log_flag \<longrightarrow> eval_freq \<noteq> 0" and "verbose \<longrightarrow> print_freq \<noteq> 0"
  shows "\<exists>s'. stab_loop a b C reg maxIter tau stopThr verbose log_flag eval_freq
                 print_freq s = Inr s'"
  using assms
proof (induction a b C reg maxIter tau stopThr verbose log_flag eval_freq print_freq s
        rule: stab_loop.induct)
  case (1 a b C reg maxIter tau stopThr verbose log_flag eval_freq print_freq s)
  show ?case
  proof (cases "fgt (ss_err s) stopThr \<and> ss_it s \<le> maxIter")
    case False
    then show ?thesis by (simp add: stab_loop_stop)
  next
    case True
    from stab_body_returns[OF "1.prems"] obtain s'
      where b: "stab_body a b C reg tau verbose log_flag eval_freq print_freq s = Inr s'"
      by blast
    from "1.IH"[OF True b "1.prems"] obtain s''
      where "stab_loop a b C reg maxIter tau stopThr verbose log_flag eval_freq print_freq
               (s'\<lparr>ss_it := ss_it s + 1\<rparr>) = Inr s''" by blast
    with True b show ?thesis by (simp add: stab_loop_pass)
  qed
qed

lemma stabilized_returns:
  assumes "check_inputs a b C reg = None"
      and "log_flag \<longrightarrow> eval_freq \<noteq> 0" and "verbose \<longrightarrow> print_freq \<noteq> 0"
  shows "\<exists>P lg. sinkhorn_stabilized a b C reg maxIter tau stopThr verbose log_flag
                   warm_start eval_freq print_freq = Inr (P, lg)
                 \<and> (lg = None \<longleftrightarrow> \<not> log_flag)"
proof -
  from stab_loop_returns[OF assms(2,3)] obtain s where
    "stab_loop a b C reg maxIter tau stopThr verbose log_flag eval_freq print_freq
       (stab_init C reg warm_start) = Inr s" by blast
  with assms(1) show ?thesis by (simp add: sinkhorn_stabilized_def)
qed

lemma stabilized_log_pair:
  "sinkhorn_stabilized a b C reg maxIter tau stopThr verbose True warm_start
      eval_freq print_freq \<noteq> Inr (P, None)"
  by (simp add: sinkhorn_stabilized_def split: option.splits sum.splits)

subsection \<open>The controller without a log\<close>

lemma eps_body_no_log:
  assumes "es_log_err s = None"
  shows "eps_body a b C reg maxInnerIter tau scaling_base scaling_coef stopThr verbose
           eval_freq print_freq s
         = Inl (case sinkhorn_stabilized a b C
                       (get_reg scaling_coef scaling_base (es_it s) reg (es_running_reg s))
                       maxInnerIter tau stopThr False True (es_warm_start s)
                       eval_freq print_freq
                of Inl e \<Rightarrow> e | Inr _ \<Rightarrow> TypeError)"
  using assms by (simp add: eps_body_def Let_def split: sum.splits prod.splits option.splits)

subsection \<open>The passes of the controller\<close>

lemma fadd_commute: "fadd x y = fadd y x"
  by (cases x; cases y) auto

lemma get_reg_schedule:
  "get_reg coef base (int n + 1) reg (reg_schedule coef base reg n)
   = reg_schedule coef base reg (Suc n)"
  by (cases n) (simp_all add: get_reg_def Let_def fadd_commute)

lemma eps_body_result:
  assumes "eps_body a b C reg mii tau base coef stopThr verbose ef pf s = Inr s'"
  shows "\<exists>P lg errs. sinkhorn_stabilized a b C (get_reg coef base (es_it s) reg (es_running_reg s))
                  mii tau stopThr False True (es_warm_start s) ef pf = Inr (P, Some lg)
               \<and> es_log_err s = Some errs
               \<and> s' = s\<lparr>es_err := fsub (primal_val C P reg)
                                       (dual_val (sl_alpha lg) (sl_beta lg) a b P reg),
                        es_running_reg := get_reg coef base (es_it s) reg (es_running_reg s),
                        es_warm_start := Some \<lparr>ws_alpha = sl_alpha lg, ws_beta = sl_beta lg\<rparr>,
                        es_log_err := Some (errs @ [fsub (primal_val C P reg)
                                       (dual_val (sl_alpha lg) (sl_beta lg) a b P reg)]),
                        es_last := Some (P, lg)\<rparr>"
  using assms
  by (auto simp: eps_body_def Let_def split: sum.splits prod.splits option.splits)

lemma eps_passes_schedule:
  assumes "eps_passes a b C reg mii tau base coef stopThr verbose ef pf n
             (eps_init coef lf ws) = Inr s"
  shows "es_it s = int n + 1 \<and> es_running_reg s = reg_schedule coef base reg n"
  using assms
proof (induction n arbitrary: s)
  case 0
  then show ?case by (auto simp: eps_init_def)
next
  case (Suc n)
  from Suc.prems obtain s1 s2 where
    p: "eps_passes a b C reg mii tau base coef stopThr verbose ef pf n (eps_init coef lf ws)
        = Inr s1"
    and bd: "eps_body a b C reg mii tau base coef stopThr verbose ef pf s1 = Inr s2"
    and s: "s = s2\<lparr>es_it := es_it s1 + 1\<rparr>"
    by (auto split: sum.splits)
  from Suc.IH[OF p] have i: "es_it s1 = int n + 1" "es_running_reg s1 = reg_schedule coef base reg n"
    by simp_all
  from eps_body_result[OF bd] have
    "es_running_reg s2 = get_reg coef base (es_it s1) reg (es_running_reg s1)" by auto
  with i get_reg_schedule[of coef base n reg] s show ?case by simp
qed

lemma eps_passes_shift:
  "eps_passes a b C reg mii tau base coef stopThr verbose ef pf (Suc n) s
   = (case eps_body a b C reg mii tau base coef stopThr verbose ef pf s of
        Inl e \<Rightarrow> Inl e
      | Inr s' \<Rightarrow> eps_passes a b C reg mii tau base coef stopThr verbose ef pf n
                    (s'\<lparr>es_it := es_it s + 1\<rparr>))"
proof (induction n)
  case 0
  then show ?case by (simp split: sum.splits)
next
  case (Suc n)
  show ?case
  proof (cases "eps_body a b C reg mii tau base coef stopThr verbose ef pf s")
    case (Inl e)
    with Suc have "eps_passes a b C reg mii tau base coef stopThr verbose ef pf (Suc n) s
                   = Inl e" by simp
    with Inl show ?thesis by (subst eps_passes.simps(2)) simp
  next
    case (Inr s')
    with Suc have "eps_passes a b C reg mii tau base coef stopThr verbose ef pf (Suc n) s
                   = eps_passes a b C reg mii tau base coef stopThr verbose ef pf n
                       (s'\<lparr>es_it := es_it s + 1\<rparr>)" by simp
    with Inr show ?thesis by (subst eps_passes.simps(2)) simp
  qed
qed

lemma eps_loop_stop:
  "\<not> (fgt (es_err s) stopThr \<and> es_it s \<le> maxIter) \<Longrightarrow>
   eps_loop a b C reg maxIter mii tau base coef stopThr verbose ef pf s = Inr s"
  by (subst eps_loop.simps) auto

lemma eps_loop_pass:
  "fgt (es_err s) stopThr \<Longrightarrow> es_it s \<le> maxIter \<Longrightarrow>
   eps_loop a b C reg maxIter mii tau base coef stopThr verbose ef pf s
   = (case eps_body a b C reg mii tau base coef stopThr verbose ef pf s of
        Inl e \<Rightarrow> Inl e
      | Inr s' \<Rightarrow> eps_loop a b C reg maxIter mii tau base coef stopThr verbose ef pf
                    (s'\<lparr>es_it := es_it s + 1\<rparr>))"
  by (subst eps_loop.simps) auto

lemma eps_loop_is_passes:
  assumes "eps_loop a b C reg maxIter mii tau base coef stopThr verbose ef pf s = Inr s_fin"
  shows "\<exists>n. eps_passes a b C reg mii tau base coef stopThr verbose ef pf n s = Inr s_fin"
  using assms
proof (induction a b C reg maxIter mii tau base coef stopThr verbose ef pf s
        rule: eps_loop.induct)
  case (1 a b C reg maxIter mii tau base coef stopThr verbose ef pf s)
  show ?case
  proof (cases "fgt (es_err s) stopThr \<and> es_it s \<le> maxIter")
    case False
    with "1.prems" have "s_fin = s" by (simp add: eps_loop_stop)
    then have "eps_passes a b C reg mii tau base coef stopThr verbose ef pf 0 s = Inr s_fin"
      by simp
    then show ?thesis ..
  next
    case True
    with "1.prems" obtain s' where
      bd: "eps_body a b C reg mii tau base coef stopThr verbose ef pf s = Inr s'"
      and l: "eps_loop a b C reg maxIter mii tau base coef stopThr verbose ef pf
                (s'\<lparr>es_it := es_it s + 1\<rparr>) = Inr s_fin"
      by (auto simp: eps_loop_pass split: sum.splits)
    from "1.IH"[OF True bd l] obtain n where
      "eps_passes a b C reg mii tau base coef stopThr verbose ef pf n
         (s'\<lparr>es_it := es_it s + 1\<rparr>) = Inr s_fin" ..
    with bd have "eps_passes a b C reg mii tau base coef stopThr verbose ef pf (Suc n) s
                  = Inr s_fin"
      by (simp only: eps_passes_shift sum.case)
    then show ?thesis ..
  qed
qed


lemma eps_body_returns:
  assumes "check_inputs a b C (get_reg coef base (es_it s) reg (es_running_reg s)) = None"
      and "ef \<noteq> 0" and "es_log_err s \<noteq> None" and "verbose \<longrightarrow> pf \<noteq> 0"
  shows "\<exists>s'. eps_body a b C reg mii tau base coef stopThr verbose ef pf s = Inr s'"
proof -
  from stabilized_returns[OF assms(1), of True ef False pf mii tau stopThr "es_warm_start s"]
    assms(2)
  obtain P lg where inner: "sinkhorn_stabilized a b C
      (get_reg coef base (es_it s) reg (es_running_reg s)) mii tau stopThr False True
      (es_warm_start s) ef pf = Inr (P, Some lg)" by auto
  from assms(3) obtain errs where errs: "es_log_err s = Some errs" by auto
  from due_returns[OF assms(4)] obtain pr where pr: "due verbose (es_it s) pf = Inr pr" ..
  show ?thesis by (simp add: eps_body_def Let_def inner errs pr)
qed

lemma eps_passes_returns:
  assumes "\<forall>k. 1 \<le> k \<and> k \<le> n \<longrightarrow> check_inputs a b C (reg_schedule coef base reg k) = None"
      and "ef \<noteq> 0" and "verbose \<longrightarrow> pf \<noteq> 0"
  shows "\<exists>s. eps_passes a b C reg mii tau base coef stopThr verbose ef pf n
               (eps_init coef True ws) = Inr s \<and> es_log_err s \<noteq> None"
  using assms(1)
proof (induction n)
  case 0
  then show ?case by (simp add: eps_init_def)
next
  case (Suc n)
  then obtain s1 where p: "eps_passes a b C reg mii tau base coef stopThr verbose ef pf n
       (eps_init coef True ws) = Inr s1" and l: "es_log_err s1 \<noteq> None" by auto
  from eps_passes_schedule[OF p] have i: "es_it s1 = int n + 1"
    "es_running_reg s1 = reg_schedule coef base reg n" by simp_all
  from Suc.prems have "check_inputs a b C (reg_schedule coef base reg (Suc n)) = None" by simp
  then have "check_inputs a b C (get_reg coef base (es_it s1) reg (es_running_reg s1)) = None"
    using i get_reg_schedule[of coef base n reg] by simp
  from eps_body_returns[OF this assms(2) l assms(3)] obtain s2 where
    bd: "eps_body a b C reg mii tau base coef stopThr verbose ef pf s1 = Inr s2" ..
  from eps_body_result[OF bd] have "es_log_err s2 \<noteq> None" by auto
  with p bd show ?case by simp
qed

lemma eps_loop_exit:
  assumes "eps_loop a b C reg maxIter mii tau base coef stopThr verbose ef pf s = Inr s_fin"
  shows "\<not> fgt (es_err s_fin) stopThr \<or> maxIter < es_it s_fin"
  using assms
proof (induction a b C reg maxIter mii tau base coef stopThr verbose ef pf s
        rule: eps_loop.induct)
  case (1 a b C reg maxIter mii tau base coef stopThr verbose ef pf s)
  show ?case
  proof (cases "fgt (es_err s) stopThr \<and> es_it s \<le> maxIter")
    case False
    with "1.prems" have "s_fin = s" by (simp add: eps_loop_stop)
    with False show ?thesis by auto
  next
    case True
    with "1.prems" obtain s' where
      bd: "eps_body a b C reg mii tau base coef stopThr verbose ef pf s = Inr s'"
      and l: "eps_loop a b C reg maxIter mii tau base coef stopThr verbose ef pf
                (s'\<lparr>es_it := es_it s + 1\<rparr>) = Inr s_fin"
      by (auto simp: eps_loop_pass split: sum.splits)
    from "1.IH"[OF True bd l] show ?thesis .
  qed
qed

subsection \<open>Shapes and the kernel of the stabilized solver\<close>

lemma ncols_rect: "K \<noteq> [] \<Longrightarrow> \<forall>r\<in>set K. length r = n \<Longrightarrow> ncols K = n"
  by (cases K) (auto simp: ncols_def)

lemma update_K_shape:
  assumes "length alpha = nrows C" "length beta = ncols C" "\<forall>r\<in>set C. length r = ncols C"
  shows "length (update_K C reg alpha beta) = nrows C"
    and "\<forall>r\<in>set (update_K C reg alpha beta). length r = ncols C"
  using assms
  by (auto simp: update_K_def Let_def mmap_def madd_def outer_add_def vadd_def nrows_def
      set_zip)



lemma scaling_lengths:
  assumes "stab_shapes a b C s"
  shows "length (vdiv b (vadds (matmul_vm (ss_u s) (ss_K s)) M_EPS)) = ncols C"
    and "length (vdiv a (vadds (matmul_mv (ss_K s) v) M_EPS)) = nrows C"
proof -
  from assms have "ss_K s \<noteq> []" by (auto simp: stab_shapes_def nrows_def)
  with assms have "ncols (ss_K s) = ncols C"
    by (intro ncols_rect) (auto simp: stab_shapes_def)
  with assms show "length (vdiv b (vadds (matmul_vm (ss_u s) (ss_K s)) M_EPS)) = ncols C"
    by (simp add: vdiv_def vadds_def matmul_vm_def stab_shapes_def)
  from assms show "length (vdiv a (vadds (matmul_mv (ss_K s) v) M_EPS)) = nrows C"
    by (simp add: vdiv_def vadds_def matmul_mv_def stab_shapes_def)
qed

lemma stab_body_state:
  assumes "stab_body a b C reg tau verbose log_flag eval_freq print_freq s = Inr s'"
  shows "let v = vdiv b (vadds (matmul_vm (ss_u s) (ss_K s)) M_EPS);
             u = vdiv a (vadds (matmul_mv (ss_K s) v) M_EPS);
             absorb = (fgt (fsum (map fabs u)) tau \<or> fgt (fsum (map fabs v)) tau);
             alpha = (if absorb then vadd (ss_alpha s) (vscale reg (vlog (vadds u M_EPS)))
                      else ss_alpha s);
             beta = (if absorb then vadd (ss_beta s) (vscale reg (vlog (vadds v M_EPS)))
                     else ss_beta s)
         in ss_alpha s' = alpha \<and> ss_beta s' = beta
          \<and> ss_u s' = (if absorb then fill u (fdiv (Fin 1) (Fin (real (nrows C)))) else u)
          \<and> ss_v s' = (if absorb then fill v (fdiv (Fin 1) (Fin (real (ncols C)))) else v)
          \<and> ss_K s' = (if absorb then update_K C reg alpha beta else ss_K s)
          \<and> ss_it s' = ss_it s"
  using assms
  by (auto simp: stab_body_def Let_def split: sum.splits if_splits)

lemma stab_init_shapes:
  assumes "check_inputs a b C reg = None" and "\<forall>r\<in>set C. length r = ncols C"
      and "case warm_start of None \<Rightarrow> True
           | Some w \<Rightarrow> length (ws_alpha w) = nrows C \<and> length (ws_beta w) = ncols C"
  shows "stab_shapes a b C (stab_init C reg warm_start)"
proof -
  from check_shapes[OF assms(1)] have c: "1 \<le> nrows C" "1 \<le> ncols C"
    "length a = nrows C" "length b = ncols C" by simp_all
  let ?al = "case warm_start of Some w \<Rightarrow> ws_alpha w | None \<Rightarrow> replicate (nrows C) (Fin 0)"
  let ?be = "case warm_start of Some w \<Rightarrow> ws_beta w | None \<Rightarrow> replicate (ncols C) (Fin 0)"
  from assms(3) have l: "length ?al = nrows C" "length ?be = ncols C"
    by (simp_all split: option.splits)
  from update_K_shape[OF l assms(2), of reg] c l assms(2) show ?thesis
    by (simp add: stab_shapes_def stab_init_def Let_def)
qed

lemma stab_body_shapes:
  assumes "stab_shapes a b C s"
      and "stab_body a b C reg tau verbose log_flag eval_freq print_freq s = Inr s'"
  shows "stab_shapes a b C s'"
proof -
  define v where "v = vdiv b (vadds (matmul_vm (ss_u s) (ss_K s)) M_EPS)"
  define u where "u = vdiv a (vadds (matmul_mv (ss_K s) v) M_EPS)"
  have lv: "length v = ncols C" and lu: "length u = nrows C"
    using scaling_lengths[OF assms(1)] by (simp_all add: v_def u_def)
  from assms(1) have sh: "length (ss_alpha s) = nrows C" "length (ss_beta s) = ncols C"
    "\<forall>r\<in>set C. length r = ncols C"
    by (simp_all add: stab_shapes_def)
  let ?al = "vadd (ss_alpha s) (vscale reg (vlog (vadds u M_EPS)))"
  let ?be = "vadd (ss_beta s) (vscale reg (vlog (vadds v M_EPS)))"
  have la: "length ?al = nrows C" and lb: "length ?be = ncols C"
    using sh lu lv by (simp_all add: vadd_def vscale_def vlog_def vadds_def)
  note k = update_K_shape[OF la lb sh(3), of reg]
  note st = stab_body_state[OF assms(2), unfolded Let_def, folded v_def, folded u_def]
  show ?thesis
  proof (cases "fgt (fsum (map fabs u)) tau \<or> fgt (fsum (map fabs v)) tau")
    case False
    with st assms(1) show ?thesis by (simp add: stab_shapes_def)
  next
    case True
    with st assms(1) la lb k show ?thesis by (simp add: stab_shapes_def)
  qed
qed

subsection \<open>The loop of the plain solver\<close>


lemma knopp_loop_pass:
  "fgt (ks_err s) stopThr \<Longrightarrow> ks_it s \<le> maxIter \<Longrightarrow>
   knopp_loop a b K maxIter stopThr verbose log_flag eval_freq print_freq s
   = (case knopp_body a b K verbose log_flag eval_freq print_freq s of
        Inl e \<Rightarrow> Inl e
      | Inr (Break s') \<Rightarrow> Inr s'
      | Inr (Continue s') \<Rightarrow>
          knopp_loop a b K maxIter stopThr verbose log_flag eval_freq print_freq
            (s'\<lparr>ks_it := ks_it s + 1\<rparr>))"
  by (subst knopp_loop.simps) auto

lemma knopp_body_fault:
  assumes "list_ex isnan u \<or> list_ex isnan v \<or> list_ex isinf u \<or> list_ex isinf v"
      and "v = vdiv b (vadds (matmul_vm (ks_u s) K) M_EPS)"
      and "u = vdiv a (vadds (matmul_mv K v) M_EPS)"
  shows "knopp_body a b K verbose log_flag eval_freq print_freq s = Inr (Break s)"
  using assms by (simp add: knopp_body_def Let_def)


subsection \<open>An infinite mass in both solvers\<close>

lemma knopp_rolls_back_on_inf:
  "sinkhorn_knopp [PInf] [Fin 1] [[Fin 0]] (Fin 1) 1 (Fin (1 / 1000000000)) False False None 10 200
   = Inr ([[Fin 1]], None)"
proof -
  have chk: "check_inputs [PInf] [Fin 1] [[Fin 0]] (Fin 1) = None"
    by (simp add: check_inputs_def tensor_defs)
  have K: "knopp_kernel [[Fin 0]] (Fin 1) = [[Fin 1]]"
    by (simp add: knopp_kernel_def tensor_defs)
  let ?s0 = "\<lparr>ks_u = [Fin 1], ks_v = [Fin 1], ks_it = 1, ks_err = Fin 1, ks_log_err = []\<rparr>"
  have bd: "knopp_body [PInf] [Fin 1] [[Fin 1]] False False 10 200 ?s0 = Inr (Break ?s0)"
    by (simp add: knopp_body_def Let_def tensor_defs)
  have lp: "knopp_loop [PInf] [Fin 1] [[Fin 1]] 1 (Fin (1 / 1000000000)) False False 10 200 ?s0
            = Inr ?s0"
    by (subst knopp_loop_pass) (simp_all add: bd fgt_def)
  show ?thesis
    by (simp add: sinkhorn_knopp_def chk K lp Let_def plan_of_def tensor_defs)
qed

lemma stabilized_keeps_inf:
  "sinkhorn_stabilized [PInf] [Fin 1] [[Fin 0]] (Fin 1) 1 (Fin 1000) (Fin (1 / 1000000000))
     False False None 10 200 = Inr ([[PInf]], None)"
proof -
  have chk: "check_inputs [PInf] [Fin 1] [[Fin 0]] (Fin 1) = None"
    by (simp add: check_inputs_def tensor_defs)
  let ?s0 = "stab_init [[Fin 0]] (Fin 1) None"
  have s0: "?s0 = \<lparr>ss_u = [Fin 1], ss_v = [Fin 1], ss_alpha = [Fin 0], ss_beta = [Fin 0],
                    ss_K = [[Fin 1]], ss_it = 1, ss_err = Fin 1, ss_log_err = []\<rparr>"
    by (simp add: stab_init_def update_K_def Let_def tensor_defs)
  let ?s1 = "\<lparr>ss_u = [Fin 1], ss_v = [Fin 1], ss_alpha = [PInf],
              ss_beta = [Fin (ln (100000000000000010000000000000001 /
                                  100000000000000010000000000000000))],
              ss_K = [[PInf]], ss_it = 1, ss_err = Fin 1, ss_log_err = []\<rparr>"
  have bd: "stab_body [PInf] [Fin 1] [[Fin 0]] (Fin 1) (Fin 1000) False False 10 200 ?s0
            = Inr ?s1"
    unfolding s0
    by (simp add: stab_body_def update_K_def Let_def due_def tensor_defs)
  have "stab_loop [PInf] [Fin 1] [[Fin 0]] (Fin 1) 1 (Fin 1000) (Fin (1 / 1000000000))
          False False 10 200 ?s0
        = stab_loop [PInf] [Fin 1] [[Fin 0]] (Fin 1) 1 (Fin 1000) (Fin (1 / 1000000000))
            False False 10 200 (?s1\<lparr>ss_it := ss_it ?s0 + 1\<rparr>)"
    by (rule stab_loop_pass[OF _ _ bd]) (simp_all add: s0 fgt_def)
  also have "\<dots> = Inr (?s1\<lparr>ss_it := ss_it ?s0 + 1\<rparr>)"
    by (rule stab_loop_stop) (simp add: s0)
  finally have lp: "stab_loop [PInf] [Fin 1] [[Fin 0]] (Fin 1) 1 (Fin 1000)
      (Fin (1 / 1000000000)) False False 10 200 ?s0 = Inr (?s1\<lparr>ss_it := ss_it ?s0 + 1\<rparr>)" .
  show ?thesis
    unfolding sinkhorn_stabilized_def chk lp
    by (simp add: update_P_def Let_def tensor_defs)
qed

subsection \<open>A gap that is not a number\<close>

lemma not_fgt_iff: "(\<not> fgt x y) = (fle x y \<or> isnan x \<or> isnan y)"
  by (cases x; cases y) (auto simp: fgt_def fle_def)

lemma stabilized_nan_cost:
  "sinkhorn_stabilized [Fin 1] [Fin 1] [[PInf]] PInf 100 (Fin 1000) (Fin (1 / 1000000000))
     False True None 10 200
   = Inr ([[NaN]], Some \<lparr>sl_err = [NaN], sl_u = [NaN], sl_v = [NaN], sl_alpha = [NaN],
                          sl_beta = [NaN]\<rparr>)"
  by (simp add: sinkhorn_stabilized_def check_inputs_def stab_init_def stab_loop.simps
       stab_body_def update_K_def update_P_def due_def py_mod_is_zero_def Let_def tensor_defs)

lemma eps_loop_nan_cost:
  "eps_loop [Fin 1] [Fin 1] [[PInf]] (Fin (1/10)) 100 100 (Fin 1000) (Fin (3/4)) PInf
     (Fin (1 / 1000000000)) False 10 200 (eps_init PInf True None)
   = Inr \<lparr>es_it = 2, es_err = NaN, es_running_reg = PInf,
           es_warm_start = Some \<lparr>ws_alpha = [NaN], ws_beta = [NaN]\<rparr>,
           es_log_err = Some [NaN],
           es_last = Some ([[NaN]], \<lparr>sl_err = [NaN], sl_u = [NaN], sl_v = [NaN],
                                      sl_alpha = [NaN], sl_beta = [NaN]\<rparr>)\<rparr>"
proof -
  let ?s0 = "eps_init PInf True None"
  let ?s1 = "\<lparr>es_it = 1, es_err = NaN, es_running_reg = PInf,
           es_warm_start = Some \<lparr>ws_alpha = [NaN], ws_beta = [NaN]\<rparr>,
           es_log_err = Some [NaN],
           es_last = Some ([[NaN]], \<lparr>sl_err = [NaN], sl_u = [NaN], sl_v = [NaN],
                                      sl_alpha = [NaN], sl_beta = [NaN]\<rparr>)\<rparr>"
  have bd: "eps_body [Fin 1] [Fin 1] [[PInf]] (Fin (1/10)) 100 (Fin 1000) (Fin (3/4)) PInf
              (Fin (1 / 1000000000)) False 10 200 ?s0 = Inr ?s1"
    by (simp add: eps_body_def eps_init_def get_reg_def stabilized_nan_cost primal_val_def
          dual_val_def due_def Let_def tensor_defs)
  have t: "fgt (es_err ?s0) (Fin (1 / 1000000000))" "es_it ?s0 \<le> 100"
    by (simp_all add: eps_init_def fgt_def)
  have "eps_loop [Fin 1] [Fin 1] [[PInf]] (Fin (1/10)) 100 100 (Fin 1000) (Fin (3/4)) PInf
     (Fin (1 / 1000000000)) False 10 200 ?s0
     = eps_loop [Fin 1] [Fin 1] [[PInf]] (Fin (1/10)) 100 100 (Fin 1000) (Fin (3/4)) PInf
     (Fin (1 / 1000000000)) False 10 200 (?s1\<lparr>es_it := es_it ?s0 + 1\<rparr>)"
    by (simp only: eps_loop_pass[OF t] bd sum.case)
  also have "\<dots> = Inr (?s1\<lparr>es_it := es_it ?s0 + 1\<rparr>)"
    by (rule eps_loop_stop) (simp add: fgt_def)
  finally show ?thesis by (simp add: eps_init_def)
qed

subsection \<open>The controller follows the schedule\<close>

lemma check_inputs_reg:
  assumes "check_inputs a b C reg = None" and "fgt r (Fin 0)"
  shows "check_inputs a b C r = None"
  using assms by (simp add: check_inputs_def Let_def split: if_splits)

lemma reg_schedule_pos:
  assumes "0 < r" and "0 < c"
  shows "\<exists>x. reg_schedule (Fin c) (Fin q) (Fin r) n = Fin x \<and> 0 < x"
proof (induction "Fin c" "Fin q" "Fin r" n rule: reg_schedule.induct)
  case 1
  then show ?case using assms by simp
next
  case 2
  then show ?case using assms by simp
next
  case (3 n)
  then obtain x where x: "reg_schedule (Fin c) (Fin q) (Fin r) (Suc n) = Fin x" by auto
  show ?case using assms
    by (auto simp: x fsub_def M_EPS_def Let_def)
qed

lemma eps_passes_prefix:
  assumes "eps_passes a b C reg mii tau base coef stopThr verbose ef pf n s = Inr s'"
      and "k \<le> n"
  shows "\<exists>s_k. eps_passes a b C reg mii tau base coef stopThr verbose ef pf k s = Inr s_k"
  using assms
proof (induction n arbitrary: s')
  case 0
  then show ?case by simp
next
  case (Suc n)
  show ?case
  proof (cases "k = Suc n")
    case True
    with Suc.prems show ?thesis by blast
  next
    case False
    with Suc.prems have k: "k \<le> n" by simp
    from Suc.prems(1) obtain s1 where
      "eps_passes a b C reg mii tau base coef stopThr verbose ef pf n s = Inr s1"
      by (auto split: sum.splits)
    from Suc.IH[OF this k] show ?thesis .
  qed
qed

lemma eps_passes_step:
  assumes "eps_passes a b C reg mii tau base coef stopThr verbose ef pf (Suc n)
             (eps_init coef lf ws) = Inr s"
  shows "\<exists>s_n P lg.
           eps_passes a b C reg mii tau base coef stopThr verbose ef pf n
             (eps_init coef lf ws) = Inr s_n
         \<and> es_it s_n = int n + 1
         \<and> sinkhorn_stabilized a b C (reg_schedule coef base reg (Suc n)) mii tau stopThr
             False True (es_warm_start s_n) ef pf = Inr (P, Some lg)
         \<and> es_last s = Some (P, lg)"
proof -
  from assms obtain s1 s2 where
    p: "eps_passes a b C reg mii tau base coef stopThr verbose ef pf n (eps_init coef lf ws)
        = Inr s1"
    and bd: "eps_body a b C reg mii tau base coef stopThr verbose ef pf s1 = Inr s2"
    and s: "s = s2\<lparr>es_it := es_it s1 + 1\<rparr>"
    by (auto split: sum.splits)
  from eps_passes_schedule[OF p] have i: "es_it s1 = int n + 1"
    "es_running_reg s1 = reg_schedule coef base reg n" by simp_all
  have g: "get_reg coef base (es_it s1) reg (es_running_reg s1)
           = reg_schedule coef base reg (Suc n)"
    using i get_reg_schedule[of coef base n reg] by simp
  from eps_body_result[OF bd] obtain P lg where
    "sinkhorn_stabilized a b C (reg_schedule coef base reg (Suc n)) mii tau stopThr
       False True (es_warm_start s1) ef pf = Inr (P, Some lg)"
    "es_last s2 = Some (P, lg)"
    unfolding g by auto
  with p s i show ?thesis by auto
qed

lemma eps_scaling_result:
  assumes "sinkhorn_epsilon_scaling a b C reg maxIter mii tau base sc stopThr verbose lf ws
             ef pf = Inr (P, lg)"
  shows "\<exists>s_fin lgi. eps_loop a b C reg maxIter mii tau base (default_coef C reg sc) stopThr
             verbose ef pf (eps_init (default_coef C reg sc) lf ws) = Inr s_fin
           \<and> es_last s_fin = Some (P, lgi)"
  using assms
  by (auto simp: sinkhorn_epsilon_scaling_def Let_def
           split: option.splits sum.splits prod.splits)

lemma eps_scaling_schedule:
  assumes "sinkhorn_epsilon_scaling a b C reg maxIter mii tau base sc stopThr verbose lf ws
             ef pf = Inr (P, lg)"
  shows "\<exists>n s_fin.
           eps_loop a b C reg maxIter mii tau base (default_coef C reg sc) stopThr verbose ef pf
             (eps_init (default_coef C reg sc) lf ws) = Inr s_fin
         \<and> es_it s_fin = int n + 2
         \<and> es_running_reg s_fin = reg_schedule (default_coef C reg sc) base reg (Suc n)
         \<and> (\<forall>k\<le>n. \<exists>s_k P_k lg_k.
                eps_passes a b C reg mii tau base (default_coef C reg sc) stopThr verbose ef pf
                  k (eps_init (default_coef C reg sc) lf ws) = Inr s_k
              \<and> es_it s_k = int k + 1
              \<and> sinkhorn_stabilized a b C (reg_schedule (default_coef C reg sc) base reg (Suc k))
                  mii tau stopThr False True (es_warm_start s_k) ef pf = Inr (P_k, Some lg_k)
              \<and> (k = n \<longrightarrow> P_k = P))"
proof -
  let ?coef = "default_coef C reg sc"
  from eps_scaling_result[OF assms] obtain s_fin lgi where
    l: "eps_loop a b C reg maxIter mii tau base ?coef stopThr verbose ef pf
          (eps_init ?coef lf ws) = Inr s_fin"
    and last: "es_last s_fin = Some (P, lgi)" by blast
  from eps_loop_is_passes[OF l] obtain m where
    p: "eps_passes a b C reg mii tau base ?coef stopThr verbose ef pf m (eps_init ?coef lf ws)
        = Inr s_fin" ..
  have "m \<noteq> 0"
  proof
    assume "m = 0"
    with p have "s_fin = eps_init ?coef lf ws" by simp
    with last show False by (simp add: eps_init_def)
  qed
  then obtain n where m: "m = Suc n" by (cases m) auto
  from eps_passes_schedule[OF p] m have i: "es_it s_fin = int n + 2"
    "es_running_reg s_fin = reg_schedule ?coef base reg (Suc n)" by simp_all
  have "\<exists>s_k P_k lg_k.
          eps_passes a b C reg mii tau base ?coef stopThr verbose ef pf k (eps_init ?coef lf ws)
            = Inr s_k
        \<and> es_it s_k = int k + 1
        \<and> sinkhorn_stabilized a b C (reg_schedule ?coef base reg (Suc k))
            mii tau stopThr False True (es_warm_start s_k) ef pf = Inr (P_k, Some lg_k)
        \<and> (k = n \<longrightarrow> P_k = P)" if "k \<le> n" for k
  proof -
    from that m have "Suc k \<le> m" by simp
    from eps_passes_prefix[OF p this] obtain s' where
      pk: "eps_passes a b C reg mii tau base ?coef stopThr verbose ef pf (Suc k)
             (eps_init ?coef lf ws) = Inr s'" ..
    from eps_passes_step[OF pk] obtain s_k P_k lg_k where
      st: "eps_passes a b C reg mii tau base ?coef stopThr verbose ef pf k (eps_init ?coef lf ws)
            = Inr s_k"
      "es_it s_k = int k + 1"
      "sinkhorn_stabilized a b C (reg_schedule ?coef base reg (Suc k))
            mii tau stopThr False True (es_warm_start s_k) ef pf = Inr (P_k, Some lg_k)"
      "es_last s' = Some (P_k, lg_k)" by blast
    have "P_k = P" if "k = n"
    proof -
      from that pk p m have "s' = s_fin" by simp
      with st(4) last show ?thesis by simp
    qed
    with st show ?thesis by blast
  qed
  with l i show ?thesis by blast
qed


lemma eps_loop_returns:
  assumes "\<forall>k. check_inputs a b C (reg_schedule coef base reg (Suc k)) = None"
      and "ef \<noteq> 0" and "verbose \<longrightarrow> pf \<noteq> 0"
      and "es_it s = int n + 1" and "es_running_reg s = reg_schedule coef base reg n"
      and "es_log_err s \<noteq> None"
  shows "\<exists>s_fin. eps_loop a b C reg maxIter mii tau base coef stopThr verbose ef pf s = Inr s_fin
           \<and> es_log_err s_fin \<noteq> None
           \<and> (es_last s \<noteq> None \<or> (fgt (es_err s) stopThr \<and> es_it s \<le> maxIter)
                \<longrightarrow> es_last s_fin \<noteq> None)"
  using assms
proof (induction a b C reg maxIter mii tau base coef stopThr verbose ef pf s arbitrary: n
        rule: eps_loop.induct)
  case (1 a b C reg maxIter mii tau base coef stopThr verbose ef pf s)
  show ?case
  proof (cases "fgt (es_err s) stopThr \<and> es_it s \<le> maxIter")
    case False
    then have "eps_loop a b C reg maxIter mii tau base coef stopThr verbose ef pf s = Inr s"
      by (rule eps_loop_stop)
    with False "1.prems"(6) show ?thesis by auto
  next
    case True
    have g: "get_reg coef base (es_it s) reg (es_running_reg s)
             = reg_schedule coef base reg (Suc n)"
      using "1.prems"(4,5) get_reg_schedule[of coef base n reg] by simp
    from "1.prems"(1) have
      "check_inputs a b C (get_reg coef base (es_it s) reg (es_running_reg s)) = None"
      unfolding g by simp
    from eps_body_returns[OF this "1.prems"(2) "1.prems"(6) "1.prems"(3)] obtain s' where
      bd: "eps_body a b C reg mii tau base coef stopThr verbose ef pf s = Inr s'" ..
    from eps_body_result[OF bd] g have s': "es_running_reg s' = reg_schedule coef base reg (Suc n)"
      "es_log_err s' \<noteq> None" "es_last s' \<noteq> None" by auto
    let ?s = "s'\<lparr>es_it := es_it s + 1\<rparr>"
    have "\<exists>s_fin. eps_loop a b C reg maxIter mii tau base coef stopThr verbose ef pf ?s
                   = Inr s_fin
           \<and> es_log_err s_fin \<noteq> None
           \<and> (es_last ?s \<noteq> None \<or> (fgt (es_err ?s) stopThr \<and> es_it ?s \<le> maxIter)
                \<longrightarrow> es_last s_fin \<noteq> None)"
      by (rule "1.IH"[OF True bd "1.prems"(1,2,3), of "Suc n"])
         (use "1.prems"(4) s' in simp_all)
    then obtain s_fin where
      "eps_loop a b C reg maxIter mii tau base coef stopThr verbose ef pf ?s = Inr s_fin"
      "es_log_err s_fin \<noteq> None" "es_last s_fin \<noteq> None"
      using s'(3) by auto
    moreover from True bd have
      "eps_loop a b C reg maxIter mii tau base coef stopThr verbose ef pf s
       = eps_loop a b C reg maxIter mii tau base coef stopThr verbose ef pf ?s"
      by (simp add: eps_loop_pass)
    ultimately show ?thesis by simp
  qed
qed

lemma eps_scaling_returns:
  assumes "check_inputs a b C reg = None"
      and "reg = Fin r" and "default_coef C reg sc = Fin c" and "0 < c" and "base = Fin q"
      and "ef \<noteq> 0" and "verbose \<longrightarrow> pf \<noteq> 0"
      and "fgt (Fin 1) stopThr" and "1 \<le> maxIter"
  shows "\<exists>P lg. sinkhorn_epsilon_scaling a b C reg maxIter mii tau base sc stopThr verbose True
                   ws ef pf = Inr (P, Some lg)"
proof -
  let ?coef = "default_coef C reg sc"
  let ?s0 = "eps_init ?coef True ws"
  from check_shapes[OF assms(1)] assms(2) have r: "0 < r" by (simp add: fgt_def)
  have chk: "\<forall>k. check_inputs a b C (reg_schedule ?coef base reg (Suc k)) = None"
  proof
    fix k
    from reg_schedule_pos[OF r assms(4), of q "Suc k"] obtain x where
      "reg_schedule (Fin c) (Fin q) (Fin r) (Suc k) = Fin x" "0 < x" by blast
    then have "fgt (reg_schedule ?coef base reg (Suc k)) (Fin 0)"
      by (simp add: assms(3)[unfolded assms(2)] assms(2,5) fgt_def)
    from check_inputs_reg[OF assms(1) this]
    show "check_inputs a b C (reg_schedule ?coef base reg (Suc k)) = None" .
  qed
  have s0: "es_it ?s0 = int 0 + 1" "es_running_reg ?s0 = reg_schedule ?coef base reg 0"
    "es_log_err ?s0 \<noteq> None" "es_err ?s0 = Fin 1"
    by (simp_all add: eps_init_def)
  from eps_loop_returns[OF chk assms(6,7) s0(1,2,3), of maxIter mii tau stopThr]
    assms(8,9) s0(4)
  obtain s_fin where
    l: "eps_loop a b C reg maxIter mii tau base ?coef stopThr verbose ef pf ?s0 = Inr s_fin"
    and "es_log_err s_fin \<noteq> None" "es_last s_fin \<noteq> None"
    by (auto simp: eps_init_def)
  then obtain errs P lg where "es_log_err s_fin = Some errs" "es_last s_fin = Some (P, lg)"
    by auto
  with l assms(1) show ?thesis
    by (simp add: sinkhorn_epsilon_scaling_def Let_def)
qed

subsection \<open>The plain solver\<close>


















section \<open>The claims\<close>

text \<open>
  Claim C5. An input that violates a precondition (\<open>na < 1\<close> or \<open>nb < 1\<close>, a marginal of
  the wrong length, \<open>reg \<le> 0\<close>, or a negative entry in \<open>a\<close> or \<open>b\<close>) makes each of the
  three solvers fail with the assertion error of the violated precondition, whatever the
  other arguments are: the failure comes from the checks that precede the loop, so no
  iteration runs and no plan is computed.
\<close>

theorem precondition_violation_fails:
  assumes "violates_precondition a b C reg"
  shows "(\<exists>k. sinkhorn_knopp a b C reg maxIter stopThr verbose log_flag ws_uv
                 eval_freq print_freq = Inl (AssertionError k))
       \<and> (\<exists>k. sinkhorn_stabilized a b C reg maxIter tau stopThr verbose log_flag ws_ab
                 eval_freq print_freq = Inl (AssertionError k))
       \<and> (\<exists>k. sinkhorn_epsilon_scaling a b C reg maxIter maxInnerIter tau scaling_base
                 scaling_coef stopThr verbose log_flag ws_ab eval_freq print_freq
               = Inl (AssertionError k))"
proof -
  from violation_rejected[OF assms] obtain k
    where "check_inputs a b C reg = Some (AssertionError k)" ..
  then show ?thesis
    by (simp add: sinkhorn_knopp_def sinkhorn_stabilized_def sinkhorn_epsilon_scaling_def)
qed

theorem precondition_violation_fails_witness:
  "violates_precondition [Fin (1/2), Fin (- 1/2)] [Fin 1] [[Fin 0], [Fin 1]] (Fin (1/10))
   \<and> (\<exists>k. sinkhorn_knopp [Fin (1/2), Fin (- 1/2)] [Fin 1] [[Fin 0], [Fin 1]] (Fin (1/10))
             1000 (Fin (1 / 10 ^ 9)) False False None 10 200 = Inl (AssertionError k))
   \<and> (\<exists>k. sinkhorn_stabilized [Fin (1/2), Fin (- 1/2)] [Fin 1] [[Fin 0], [Fin 1]]
             (Fin (1/10)) 1000 (Fin 1000) (Fin (1 / 10 ^ 9)) False False None 10 200
           = Inl (AssertionError k))
   \<and> (\<exists>k. sinkhorn_epsilon_scaling [Fin (1/2), Fin (- 1/2)] [Fin 1] [[Fin 0], [Fin 1]]
             (Fin (1/10)) 100 100 (Fin 1000) (Fin (3/4)) None (Fin (1 / 10 ^ 9)) False False
             None 10 200 = Inl (AssertionError k))"
proof -
  have v: "violates_precondition [Fin (1/2), Fin (- 1/2)] [Fin 1] [[Fin 0], [Fin 1]]
             (Fin (1/10))"
    by (simp add: violates_precondition_def)
  from v precondition_violation_fails[OF v] show ?thesis by blast
qed



text \<open>
  Claim C9. When \<^verbatim>\<open>sinkhorn_epsilon_scaling\<close> is called with \<^verbatim>\<open>log=False\<close> and its
  outer loop is entered (\<open>1 > stopThr\<close> and \<open>1 \<le> maxIter\<close>), the call raises and returns
  no plan; when the checks pass and the first inner solve returns, the exception is the
  \<^verbatim>\<open>TypeError\<close> of \<^verbatim>\<open>log['err'].append(err)\<close> on the boolean \<^verbatim>\<open>False\<close>. So the
  return of the bare plan at the end is not reached once the body of the loop has run.
\<close>

theorem eps_scaling_without_log_raises:
  assumes "\<not> log_flag" and "fgt (Fin 1) stopThr" and "1 \<le> maxIter"
  shows "(\<exists>e. sinkhorn_epsilon_scaling a b C reg maxIter maxInnerIter tau scaling_base
                 scaling_coef stopThr verbose log_flag warm_start eval_freq print_freq = Inl e)
       \<and> (\<forall>r. check_inputs a b C reg = None
              \<and> sinkhorn_stabilized a b C (default_coef C reg scaling_coef) maxInnerIter tau
                  stopThr False True None eval_freq print_freq = Inr r
            \<longrightarrow> sinkhorn_epsilon_scaling a b C reg maxIter maxInnerIter tau scaling_base
                 scaling_coef stopThr verbose log_flag warm_start eval_freq print_freq
               = Inl TypeError)"
proof -
  let ?c = "default_coef C reg scaling_coef"
  let ?s0 = "eps_init ?c log_flag warm_start"
  have init: "es_log_err ?s0 = None" "es_it ?s0 = 1" "es_err ?s0 = Fin 1"
    "es_warm_start ?s0 = None"
    using assms(1) by (simp_all add: eps_init_def)
  have loop: "eps_loop a b C reg maxIter maxInnerIter tau scaling_base ?c stopThr verbose
                eval_freq print_freq ?s0
              = Inl (case sinkhorn_stabilized a b C ?c maxInnerIter tau stopThr False True None
                            eval_freq print_freq
                     of Inl e \<Rightarrow> e | Inr _ \<Rightarrow> TypeError)"
    using assms(2,3) init
    by (subst eps_loop.simps) (simp add: eps_body_no_log get_reg_def)
  show ?thesis
    by (cases "check_inputs a b C reg")
       (simp_all add: sinkhorn_epsilon_scaling_def loop Let_def)
qed

theorem eps_scaling_without_log_raises_witness:
  "\<not> False \<and> fgt (Fin 1) (Fin (1 / 10 ^ 9)) \<and> (1::int) \<le> 100
   \<and> sinkhorn_epsilon_scaling [Fin (1/2), Fin (1/2)] [Fin (1/2), Fin (1/2)]
        [[Fin 0, Fin 1], [Fin 1, Fin 0]] (Fin (1/10)) 100 100 (Fin 1000) (Fin (3/4)) None
        (Fin (1 / 10 ^ 9)) False False None 10 200 = Inl TypeError"
proof -
  let ?a = "[Fin (1/2), Fin (1/2)]" and ?C = "[[Fin 0, Fin 1], [Fin 1, Fin 0]]"
  have chk: "check_inputs ?a ?a ?C (default_coef ?C (Fin (1/10)) None) = None"
    "check_inputs ?a ?a ?C (Fin (1/10)) = None"
    by (simp_all add: check_inputs_def default_coef_def tensor_defs)
  from stabilized_returns[OF chk(1), of True 10 False 200 100 "Fin 1000" "Fin (1 / 10 ^ 9)" None]
  obtain r where "sinkhorn_stabilized ?a ?a ?C (default_coef ?C (Fin (1/10)) None) 100
      (Fin 1000) (Fin (1 / 10 ^ 9)) False True None 10 200 = Inr r" by auto
  with chk(2) eps_scaling_without_log_raises[of False "Fin (1 / 10 ^ 9)" 100 ?a ?a ?C
      "Fin (1/10)" 100 "Fin 1000" "Fin (3/4)" None False None 10 200]
  show ?thesis by (simp add: fgt_def)
qed

text \<open>
  Claim C10. \<^verbatim>\<open>sinkhorn_epsilon_scaling\<close> overwrites its \<^verbatim>\<open>warm_start\<close> argument with
  \<^verbatim>\<open>None\<close> before the outer loop: two calls that differ only in that argument give the
  same result (plan and log, or error), and the first inner solve, started from the
  warm start of the initial state, begins with \<open>alpha\<close> and \<open>beta\<close> zero.
\<close>

theorem eps_scaling_ignores_warm_start:
  "sinkhorn_epsilon_scaling a b C reg maxIter maxInnerIter tau scaling_base scaling_coef
      stopThr verbose log_flag ws1 eval_freq print_freq
   = sinkhorn_epsilon_scaling a b C reg maxIter maxInnerIter tau scaling_base scaling_coef
      stopThr verbose log_flag ws2 eval_freq print_freq
   \<and> es_warm_start (eps_init sc log_flag ws1) = None
   \<and> ss_alpha (stab_init C r (es_warm_start (eps_init sc log_flag ws1)))
     = replicate (nrows C) (Fin 0)
   \<and> ss_beta (stab_init C r (es_warm_start (eps_init sc log_flag ws1)))
     = replicate (ncols C) (Fin 0)"
  unfolding sinkhorn_epsilon_scaling_def eps_init_def stab_init_def Let_def by simp

text \<open>
  Claim C3, as amended. The outer loop of the controller stops on the duality gap at the
  target \<open>reg\<close>: a pass of the body that completes has run the stabilized solver at the
  running regularization and set \<open>err\<close> to \<open>primal - dual\<close>, where
  \<open>primal = sum(C*P) + reg*sum(P*log P) - reg*sum(P)\<close> and
  \<open>dual = sum(alpha*a) + sum(beta*b) - reg*sum(P)\<close> with the plan and the potentials that
  the inner solve returned. The loop runs the body while \<open>err > stopThr\<close> and
  \<open>it \<le> maxIter\<close>, and ends at once otherwise: when \<open>err \<le> stopThr\<close>, when the comparison
  fails because \<open>err\<close> (or \<open>stopThr\<close>) is NaN, or when the budget \<open>maxIter\<close> is used up;
  whenever it ends normally, one of these holds of the final state.
\<close>

theorem eps_loop_stops_on_duality_gap:
  "(\<forall>s'. eps_body a b C reg mii tau base coef stopThr verbose ef pf s = Inr s' \<longrightarrow>
      (\<exists>P lg. sinkhorn_stabilized a b C (get_reg coef base (es_it s) reg (es_running_reg s))
                 mii tau stopThr False True (es_warm_start s) ef pf = Inr (P, Some lg)
             \<and> es_last s' = Some (P, lg)
             \<and> es_err s' =
                 fsub (fsub (fadd (msum (mmul C P)) (fmul reg (msum (mmul P (mmap flog P)))))
                            (fmul reg (msum P)))
                      (fsub (fadd (fsum (vmul (sl_alpha lg) a)) (fsum (vmul (sl_beta lg) b)))
                            (fmul reg (msum P)))))
   \<and> (fle (es_err s) stopThr \<or> isnan (es_err s) \<or> isnan stopThr \<or> maxIter < es_it s \<longrightarrow>
        eps_loop a b C reg maxIter mii tau base coef stopThr verbose ef pf s = Inr s)
   \<and> (fgt (es_err s) stopThr \<and> es_it s \<le> maxIter \<longrightarrow>
        eps_loop a b C reg maxIter mii tau base coef stopThr verbose ef pf s
        = (case eps_body a b C reg mii tau base coef stopThr verbose ef pf s of
             Inl e \<Rightarrow> Inl e
           | Inr s' \<Rightarrow> eps_loop a b C reg maxIter mii tau base coef stopThr verbose ef pf
                         (s'\<lparr>es_it := es_it s + 1\<rparr>)))
   \<and> (\<forall>s_fin. eps_loop a b C reg maxIter mii tau base coef stopThr verbose ef pf s
               = Inr s_fin \<longrightarrow>
        fle (es_err s_fin) stopThr \<or> isnan (es_err s_fin) \<or> isnan stopThr
        \<or> maxIter < es_it s_fin)"
proof (intro conjI allI impI)
  fix s'
  assume "eps_body a b C reg mii tau base coef stopThr verbose ef pf s = Inr s'"
  from eps_body_result[OF this]
  show "\<exists>P lg. sinkhorn_stabilized a b C (get_reg coef base (es_it s) reg (es_running_reg s))
                 mii tau stopThr False True (es_warm_start s) ef pf = Inr (P, Some lg)
             \<and> es_last s' = Some (P, lg)
             \<and> es_err s' =
                 fsub (fsub (fadd (msum (mmul C P)) (fmul reg (msum (mmul P (mmap flog P)))))
                            (fmul reg (msum P)))
                      (fsub (fadd (fsum (vmul (sl_alpha lg) a)) (fsum (vmul (sl_beta lg) b)))
                            (fmul reg (msum P)))"
    by (auto simp: primal_val_def dual_val_def)
next
  assume "fle (es_err s) stopThr \<or> isnan (es_err s) \<or> isnan stopThr \<or> maxIter < es_it s"
  then have "\<not> (fgt (es_err s) stopThr \<and> es_it s \<le> maxIter)"
    using not_fgt_iff[of "es_err s" stopThr] by auto
  then show "eps_loop a b C reg maxIter mii tau base coef stopThr verbose ef pf s = Inr s"
    by (rule eps_loop_stop)
next
  assume "fgt (es_err s) stopThr \<and> es_it s \<le> maxIter"
  then show "eps_loop a b C reg maxIter mii tau base coef stopThr verbose ef pf s
        = (case eps_body a b C reg mii tau base coef stopThr verbose ef pf s of
             Inl e \<Rightarrow> Inl e
           | Inr s' \<Rightarrow> eps_loop a b C reg maxIter mii tau base coef stopThr verbose ef pf
                         (s'\<lparr>es_it := es_it s + 1\<rparr>))"
    by (simp add: eps_loop_pass)
next
  fix s_fin
  assume "eps_loop a b C reg maxIter mii tau base coef stopThr verbose ef pf s = Inr s_fin"
  from eps_loop_exit[OF this]
  show "fle (es_err s_fin) stopThr \<or> isnan (es_err s_fin) \<or> isnan stopThr
        \<or> maxIter < es_it s_fin"
    using not_fgt_iff[of "es_err s_fin" stopThr] by auto
qed


theorem eps_loop_stops_on_duality_gap_witness:
  "\<exists>s' P lg.
     eps_body [Fin (1/2), Fin (1/2)] [Fin (1/2), Fin (1/2)] [[Fin 0, Fin 1], [Fin 1, Fin 0]]
       (Fin (1/10)) 100 (Fin 1000) (Fin (3/4)) (Fin (11/10)) (Fin (1 / 10 ^ 9)) False 10 200
       (eps_init (Fin (11/10)) True None) = Inr s'
   \<and> sinkhorn_stabilized [Fin (1/2), Fin (1/2)] [Fin (1/2), Fin (1/2)]
       [[Fin 0, Fin 1], [Fin 1, Fin 0]] (Fin (11/10)) 100 (Fin 1000) (Fin (1 / 10 ^ 9))
       False True None 10 200 = Inr (P, Some lg)
   \<and> es_err s' =
       fsub (fsub (fadd (msum (mmul [[Fin 0, Fin 1], [Fin 1, Fin 0]] P))
                        (fmul (Fin (1/10)) (msum (mmul P (mmap flog P)))))
                  (fmul (Fin (1/10)) (msum P)))
            (fsub (fadd (fsum (vmul (sl_alpha lg) [Fin (1/2), Fin (1/2)]))
                        (fsum (vmul (sl_beta lg) [Fin (1/2), Fin (1/2)])))
                  (fmul (Fin (1/10)) (msum P)))
   \<and> eps_loop [Fin (1/2), Fin (1/2)] [Fin (1/2), Fin (1/2)] [[Fin 0, Fin 1], [Fin 1, Fin 0]]
       (Fin (1/10)) 1 100 (Fin 1000) (Fin (3/4)) (Fin (11/10)) (Fin (1 / 10 ^ 9)) False 10 200
       (eps_init (Fin (11/10)) True None) = Inr (s'\<lparr>es_it := 2\<rparr>)"
proof -
  let ?a = "[Fin (1/2), Fin (1/2)]" and ?C = "[[Fin 0, Fin 1], [Fin 1, Fin 0]]"
  let ?s0 = "eps_init (Fin (11/10)) True None"
  let ?body = "eps_body ?a ?a ?C (Fin (1/10)) 100 (Fin 1000) (Fin (3/4)) (Fin (11/10))
                 (Fin (1 / 10 ^ 9)) False 10 200"
  let ?loop = "eps_loop ?a ?a ?C (Fin (1/10)) 1 100 (Fin 1000) (Fin (3/4)) (Fin (11/10))
                 (Fin (1 / 10 ^ 9)) False 10 200"
  note inst = eps_loop_stops_on_duality_gap[of ?a ?a ?C "Fin (1/10)" 100 "Fin 1000" "Fin (3/4)" "Fin (11/10)"
                   "Fin (1 / 10 ^ 9)" False 10 200 ?s0 1]
  have s0: "es_it ?s0 = 1" "es_err ?s0 = Fin 1" "es_running_reg ?s0 = Fin (11/10)"
    "es_log_err ?s0 = Some []" "es_warm_start ?s0 = None"
    by (simp_all add: eps_init_def)
  have g: "get_reg (Fin (11/10)) (Fin (3/4)) (es_it ?s0) (Fin (1/10)) (es_running_reg ?s0)
           = Fin (11/10)" by (simp add: s0 get_reg_def)
  have chk: "check_inputs ?a ?a ?C (get_reg (Fin (11/10)) (Fin (3/4)) (es_it ?s0) (Fin (1/10))
               (es_running_reg ?s0)) = None"
    unfolding g by (simp add: check_inputs_def tensor_defs)
  from eps_body_returns[OF chk, of 10 False 200 100 "Fin 1000" "Fin (1 / 10 ^ 9)"] s0
  obtain s' where bd: "?body ?s0 = Inr s'" by auto
  from inst bd obtain P lg where inner0: "sinkhorn_stabilized ?a ?a ?C
      (get_reg (Fin (11/10)) (Fin (3/4)) (es_it ?s0) (Fin (1/10)) (es_running_reg ?s0))
      100 (Fin 1000) (Fin (1 / 10 ^ 9)) False True (es_warm_start ?s0) 10 200
      = Inr (P, Some lg)"
    and err: "es_err s' =
       fsub (fsub (fadd (msum (mmul ?C P)) (fmul (Fin (1/10)) (msum (mmul P (mmap flog P)))))
                  (fmul (Fin (1/10)) (msum P)))
            (fsub (fadd (fsum (vmul (sl_alpha lg) ?a)) (fsum (vmul (sl_beta lg) ?a)))
                  (fmul (Fin (1/10)) (msum P)))"
    by blast
  from inner0 have inner: "sinkhorn_stabilized ?a ?a ?C (Fin (11/10)) 100
      (Fin 1000) (Fin (1 / 10 ^ 9)) False True None 10 200 = Inr (P, Some lg)"
    unfolding g s0(5) .
  have "fgt (es_err ?s0) (Fin (1 / 10 ^ 9)) \<and> es_it ?s0 \<le> 1" by (simp add: s0 fgt_def)
  with inst bd have l1: "?loop ?s0 = ?loop (s'\<lparr>es_it := 2\<rparr>)" by (simp add: s0)
  have "?loop (s'\<lparr>es_it := 2\<rparr>) = Inr (s'\<lparr>es_it := 2\<rparr>)"
    by (rule eps_loop_stop) simp
  with l1 bd inner err show ?thesis by auto
qed

text \<open>
  The claim as worded, that the loop iterates until \<open>err \<le> stopThr\<close> or the budget is
  exhausted, fails when the gap is NaN. With an infinite cost (a forbidden assignment)
  and every other argument at its default, \<open>scaling_coef = max(C) + reg\<close> is infinite, the
  first inner solve returns a plan of NaN, the gap is NaN, and the loop ends after one of
  its hundred passes with \<open>err \<le> stopThr\<close> false.
\<close>

theorem eps_loop_ends_on_nan_gap:
  "sinkhorn_epsilon_scaling [Fin 1] [Fin 1] [[PInf]] (Fin (1/10)) 100 100 (Fin 1000)
      (Fin (3/4)) None (Fin (1 / 1000000000)) False True None 10 200
    = Inr ([[NaN]], Some \<lparr>el_err = [NaN], el_alpha = [NaN], el_beta = [NaN]\<rparr>)
   \<and> (\<exists>s. eps_loop [Fin 1] [Fin 1] [[PInf]] (Fin (1/10)) 100 100 (Fin 1000) (Fin (3/4))
             (default_coef [[PInf]] (Fin (1/10)) None) (Fin (1 / 1000000000)) False 10 200
             (eps_init (default_coef [[PInf]] (Fin (1/10)) None) True None) = Inr s
          \<and> es_it s = 2 \<and> es_it s \<le> 100 \<and> es_err s = NaN
          \<and> \<not> fle (es_err s) (Fin (1 / 1000000000)))"
proof -
  have c: "default_coef [[PInf]] (Fin (1/10)) None = PInf"
    by (simp add: default_coef_def tensor_defs)
  have chk: "check_inputs [Fin 1] [Fin 1] [[PInf]] (Fin (1/10)) = None"
    by (simp add: check_inputs_def tensor_defs)
  show ?thesis
    unfolding sinkhorn_epsilon_scaling_def chk c Let_def eps_loop_nan_cost
    by (simp add: fle_def)
qed

text \<open>
  Claim C6, as amended. A call of the controller that returns has made \<open>n + 1\<close> passes
  of its outer loop; pass \<open>k + 1\<close> has run the stabilized solver with the value of the
  schedule for iteration \<open>k + 1\<close>, the plan returned is that of the last pass, and the
  running regularization ends as the value for iteration \<open>n + 1\<close>. With valid inputs, a
  finite positive scaling coefficient, a finite scaling base, logging enabled and a loop
  that is entered, the call does return. The schedule is the scaling coefficient on the
  first iteration (\<open>max(C) + reg\<close> when none is supplied), then
  \<open>reg + (previous - reg) * scaling_base\<close>, or \<open>reg\<close> itself when
  \<open>(previous - reg) * scaling_base\<close> is below the constant \<^verbatim>\<open>M_EPS = 1e-16\<close>.
\<close>

theorem eps_running_reg_follows_schedule:
  "(sinkhorn_epsilon_scaling a b C reg maxIter mii tau base sc stopThr verbose lf ws ef pf
      = Inr (P, lg) \<longrightarrow>
      (\<exists>n s_fin.
           eps_loop a b C reg maxIter mii tau base (default_coef C reg sc) stopThr verbose ef pf
             (eps_init (default_coef C reg sc) lf ws) = Inr s_fin
         \<and> es_it s_fin = int n + 2
         \<and> es_running_reg s_fin = reg_schedule (default_coef C reg sc) base reg (Suc n)
         \<and> (\<forall>k\<le>n. \<exists>s_k P_k lg_k.
                eps_passes a b C reg mii tau base (default_coef C reg sc) stopThr verbose ef pf
                  k (eps_init (default_coef C reg sc) lf ws) = Inr s_k
              \<and> es_it s_k = int k + 1
              \<and> sinkhorn_stabilized a b C (reg_schedule (default_coef C reg sc) base reg (Suc k))
                  mii tau stopThr False True (es_warm_start s_k) ef pf = Inr (P_k, Some lg_k)
              \<and> (k = n \<longrightarrow> P_k = P))))
   \<and> (check_inputs a b C reg = None \<and> reg = Fin r \<and> default_coef C reg sc = Fin c \<and> 0 < c
        \<and> base = Fin q \<and> ef \<noteq> 0 \<and> (verbose \<longrightarrow> pf \<noteq> 0) \<and> fgt (Fin 1) stopThr \<and> 1 \<le> maxIter
      \<longrightarrow> (\<exists>P' lg'. sinkhorn_epsilon_scaling a b C reg maxIter mii tau base sc stopThr verbose
                       True ws ef pf = Inr (P', Some lg')))
   \<and> default_coef C reg None = fadd (tmax (concat C)) reg
   \<and> default_coef C reg (Some c') = c'
   \<and> reg_schedule coef base reg (Suc 0) = coef
   \<and> reg_schedule coef base reg (Suc (Suc m))
       = (if flt (fmul (fsub (reg_schedule coef base reg (Suc m)) reg) base) M_EPS then reg
          else fadd reg (fmul (fsub (reg_schedule coef base reg (Suc m)) reg) base))
   \<and> M_EPS = Fin (1 / 10 ^ 16)"
proof (intro conjI impI)
  assume "sinkhorn_epsilon_scaling a b C reg maxIter mii tau base sc stopThr verbose lf ws ef pf
            = Inr (P, lg)"
  then show "\<exists>n s_fin.
           eps_loop a b C reg maxIter mii tau base (default_coef C reg sc) stopThr verbose ef pf
             (eps_init (default_coef C reg sc) lf ws) = Inr s_fin
         \<and> es_it s_fin = int n + 2
         \<and> es_running_reg s_fin = reg_schedule (default_coef C reg sc) base reg (Suc n)
         \<and> (\<forall>k\<le>n. \<exists>s_k P_k lg_k.
                eps_passes a b C reg mii tau base (default_coef C reg sc) stopThr verbose ef pf
                  k (eps_init (default_coef C reg sc) lf ws) = Inr s_k
              \<and> es_it s_k = int k + 1
              \<and> sinkhorn_stabilized a b C (reg_schedule (default_coef C reg sc) base reg (Suc k))
                  mii tau stopThr False True (es_warm_start s_k) ef pf = Inr (P_k, Some lg_k)
              \<and> (k = n \<longrightarrow> P_k = P))"
    by (rule eps_scaling_schedule)
next
  assume "check_inputs a b C reg = None \<and> reg = Fin r \<and> default_coef C reg sc = Fin c \<and> 0 < c
        \<and> base = Fin q \<and> ef \<noteq> 0 \<and> (verbose \<longrightarrow> pf \<noteq> 0) \<and> fgt (Fin 1) stopThr \<and> 1 \<le> maxIter"
  then show "\<exists>P' lg'. sinkhorn_epsilon_scaling a b C reg maxIter mii tau base sc stopThr verbose
                       True ws ef pf = Inr (P', Some lg')"
    using eps_scaling_returns[of a b C reg r sc c base q ef verbose pf stopThr maxIter mii tau ws]
    by blast
qed (simp_all add: default_coef_def M_EPS_def Let_def)

theorem eps_running_reg_follows_schedule_witness:
  "\<exists>P lg n s_fin.
      sinkhorn_epsilon_scaling [Fin (1/2), Fin (1/2)] [Fin (1/2), Fin (1/2)]
        [[Fin 0, Fin 1], [Fin 1, Fin 0]] (Fin (1/10)) 2 100 (Fin 1000) (Fin (3/4)) None
        (Fin (1 / 1000000000)) False True None 10 200 = Inr (P, Some lg)
    \<and> eps_loop [Fin (1/2), Fin (1/2)] [Fin (1/2), Fin (1/2)] [[Fin 0, Fin 1], [Fin 1, Fin 0]]
        (Fin (1/10)) 2 100 (Fin 1000) (Fin (3/4)) (Fin (11/10)) (Fin (1 / 1000000000))
        False 10 200 (eps_init (Fin (11/10)) True None) = Inr s_fin
    \<and> es_it s_fin = int n + 2
    \<and> es_running_reg s_fin = reg_schedule (Fin (11/10)) (Fin (3/4)) (Fin (1/10)) (Suc n)
    \<and> reg_schedule (Fin (11/10)) (Fin (3/4)) (Fin (1/10)) (Suc 0) = Fin (11/10)
    \<and> reg_schedule (Fin (11/10)) (Fin (3/4)) (Fin (1/10)) (Suc (Suc 0)) = Fin (17/20)"
proof -
  let ?a = "[Fin (1/2), Fin (1/2)]" and ?C = "[[Fin 0, Fin 1], [Fin 1, Fin 0]]"
  have c: "default_coef ?C (Fin (1/10)) None = Fin (11/10)"
    by (simp add: default_coef_def tensor_defs)
  have chk: "check_inputs ?a ?a ?C (Fin (1/10)) = None"
    by (simp add: check_inputs_def tensor_defs)
  have t: "fgt (Fin 1) (Fin (1 / 1000000000))" by (simp add: fgt_def)
  note inst = eps_running_reg_follows_schedule[where a = ?a and b = ?a and C = ?C
      and reg = "Fin (1/10)" and maxIter = 2 and mii = 100 and tau = "Fin 1000"
      and base = "Fin (3/4)" and sc = None and stopThr = "Fin (1 / 1000000000)"
      and verbose = False and lf = True and ws = None and ef = 10 and pf = 200
      and r = "1/10" and c = "11/10" and q = "3/4" and coef = "Fin (11/10)" and m = 0]
  from inst[of "[]" None, THEN conjunct2, THEN conjunct1] chk c t obtain P lg where
    r: "sinkhorn_epsilon_scaling ?a ?a ?C (Fin (1/10)) 2 100 (Fin 1000) (Fin (3/4)) None
          (Fin (1 / 1000000000)) False True None 10 200 = Inr (P, Some lg)"
    by auto
  from inst[of P "Some lg", THEN conjunct1] r obtain n s_fin where
    "eps_loop ?a ?a ?C (Fin (1/10)) 2 100 (Fin 1000) (Fin (3/4))
        (default_coef ?C (Fin (1/10)) None) (Fin (1 / 1000000000))
        False 10 200 (eps_init (default_coef ?C (Fin (1/10)) None) True None) = Inr s_fin"
    "es_it s_fin = int n + 2"
    "es_running_reg s_fin = reg_schedule (default_coef ?C (Fin (1/10)) None) (Fin (3/4))
                              (Fin (1/10)) (Suc n)"
    by blast
  moreover have "reg_schedule (Fin (11/10)) (Fin (3/4)) (Fin (1/10)) (Suc (Suc 0)) = Fin (17/20)"
    by (simp add: fsub_def M_EPS_def)
  ultimately show ?thesis using r unfolding c by auto
qed

text \<open>
  The threshold is not the machine epsilon. With \<^verbatim>\<open>scaling_coef = 0.1000000000000002\<close>,
  \<^verbatim>\<open>reg = 0.1\<close> and the default \<^verbatim>\<open>scaling_base = 0.75\<close>, the second pass of the loop
  finds \<open>(previous - reg) * scaling_base = 1.5e-16\<close>, which is below the machine epsilon
  \<open>2\<^sup>-\<^sup>5\<^sup>2\<close> but not below \<^verbatim>\<open>M_EPS\<close>: the running regularization becomes
  \<open>0.1 + 1.5e-16\<close>, where the schedule of the claim has \<open>reg\<close>.
\<close>

theorem running_reg_not_snapped_below_machine_epsilon:
  "\<exists>s1 s2.
      eps_body [Fin 1] [Fin 1] [[Fin 0]] (Fin (1/10)) 100 (Fin 1000) (Fin (3/4))
        (default_coef [[Fin 0]] (Fin (1/10)) (Some (Fin (500000000000001 / 5000000000000000))))
        (Fin (1 / 1000000000)) False 10 200
        (eps_init (default_coef [[Fin 0]] (Fin (1/10))
                     (Some (Fin (500000000000001 / 5000000000000000)))) True None) = Inr s1
    \<and> es_running_reg s1 = Fin (500000000000001 / 5000000000000000)
    \<and> eps_body [Fin 1] [Fin 1] [[Fin 0]] (Fin (1/10)) 100 (Fin 1000) (Fin (3/4))
        (default_coef [[Fin 0]] (Fin (1/10)) (Some (Fin (500000000000001 / 5000000000000000))))
        (Fin (1 / 1000000000)) False 10 200 (s1\<lparr>es_it := 2\<rparr>) = Inr s2
    \<and> flt (fmul (fsub (es_running_reg s1) (Fin (1/10))) (Fin (3/4))) machine_epsilon
    \<and> es_running_reg s2 = Fin (2000000000000003 / 20000000000000000)
    \<and> es_running_reg s2 \<noteq> Fin (1/10)
    \<and> claimed_schedule (Fin (500000000000001 / 5000000000000000)) (Fin (3/4)) (Fin (1/10))
         (Suc (Suc 0)) = Fin (1/10)"
proof -
  let ?c = "Fin (500000000000001 / 5000000000000000)"
  let ?s0 = "eps_init ?c True None"
  let ?body = "eps_body [Fin 1] [Fin 1] [[Fin 0]] (Fin (1/10)) 100 (Fin 1000) (Fin (3/4)) ?c
                 (Fin (1 / 1000000000)) False 10 200"
  have c: "default_coef [[Fin 0]] (Fin (1/10)) (Some ?c) = ?c" by (simp add: default_coef_def)
  have s0: "es_it ?s0 = 1" "es_running_reg ?s0 = ?c" "es_log_err ?s0 = Some []"
    by (simp_all add: eps_init_def)
  have g1: "get_reg ?c (Fin (3/4)) (es_it ?s0) (Fin (1/10)) (es_running_reg ?s0) = ?c"
    by (simp add: s0 get_reg_def)
  have chk1: "check_inputs [Fin 1] [Fin 1] [[Fin 0]]
                (get_reg ?c (Fin (3/4)) (es_it ?s0) (Fin (1/10)) (es_running_reg ?s0)) = None"
    unfolding g1 by (simp add: check_inputs_def tensor_defs)
  from eps_body_returns[OF chk1, of 10 False 200 100 "Fin 1000" "Fin (1 / 1000000000)"] s0
  obtain s1 where b1: "?body ?s0 = Inr s1" by auto
  from eps_body_result[OF b1] g1 have s1: "es_running_reg s1 = ?c" "es_log_err s1 \<noteq> None"
    by auto
  let ?s1 = "s1\<lparr>es_it := 2\<rparr>"
  have g2: "get_reg ?c (Fin (3/4)) (es_it ?s1) (Fin (1/10)) (es_running_reg ?s1)
            = Fin (2000000000000003 / 20000000000000000)"
    by (simp add: s1 get_reg_def fsub_def M_EPS_def)
  have chk2: "check_inputs [Fin 1] [Fin 1] [[Fin 0]]
                (get_reg ?c (Fin (3/4)) (es_it ?s1) (Fin (1/10)) (es_running_reg ?s1)) = None"
    unfolding g2 by (simp add: check_inputs_def tensor_defs)
  from eps_body_returns[OF chk2, of 10 False 200 100 "Fin 1000" "Fin (1 / 1000000000)"] s1
  obtain s2 where b2: "?body ?s1 = Inr s2" by auto
  from eps_body_result[OF b2] g2 have s2: "es_running_reg s2 = Fin (2000000000000003 / 20000000000000000)"
    by auto
  have d: "flt (fmul (fsub (es_running_reg s1) (Fin (1/10))) (Fin (3/4))) machine_epsilon"
    by (simp add: s1 fsub_def machine_epsilon_def)
  have cl: "claimed_schedule ?c (Fin (3/4)) (Fin (1/10)) (Suc (Suc 0)) = Fin (1/10)"
    by (simp add: fsub_def machine_epsilon_def)
  from b1 b2 s1 s2 d cl show ?thesis unfolding c by auto
qed





text \<open>
  Claim C4. The claim asks both solvers to roll back to the previous \<open>u\<close>, \<open>v\<close> and stop
  when an entry of the updated \<open>u\<close> or \<open>v\<close> is NaN or infinite. The plain solver does
  (lemma \<open>knopp_body_fault\<close>); the stabilized solver saves \<^verbatim>\<open>upre, vpre\<close> and never
  tests the new vectors. On the input \<open>a = [inf]\<close>, \<open>b = [1]\<close>, \<open>C = [[0]]\<close>, \<open>reg = 1\<close>,
  \<open>maxIter = 1\<close> the first update makes \<open>u\<close> infinite: the plain solver returns the plan
  \<open>[[1]]\<close> of the state before the update, the stabilized solver absorbs the infinite
  \<open>u\<close> into \<open>alpha\<close> and returns the plan \<open>[[inf]]\<close>.
\<close>

theorem stabilized_lacks_fault_rollback:
  "sinkhorn_knopp [PInf] [Fin 1] [[Fin 0]] (Fin 1) 1 (Fin (1 / 1000000000)) False False None
     10 200 = Inr ([[Fin 1]], None)
   \<and> sinkhorn_stabilized [PInf] [Fin 1] [[Fin 0]] (Fin 1) 1 (Fin 1000) (Fin (1 / 1000000000))
       False False None 10 200 = Inr ([[PInf]], None)"
  using knopp_rolls_back_on_inf stabilized_keeps_inf by (rule conjI)





end
